theory Spec2Isabelle
  imports Complex_Main "HOL-Library.Monad_Syntax"
begin

section \<open>Python values used by the scraper\<close>

text \<open>
  Strings are lists of characters. Python dictionaries keep insertion order, so a
  dictionary is an association list; \<open>dict_get\<close> is \<open>d.get(k)\<close> and
  \<open>dict_set\<close> is \<open>d[k] = v\<close>: an existing key keeps its position and takes
  the new value, a new key is appended.
\<close>

type_synonym ('k, 'v) dict = "('k \<times> 'v) list"

definition dict_keys :: "('k, 'v) dict \<Rightarrow> 'k list" where
  "dict_keys d = map fst d"

definition dict_get :: "('k, 'v) dict \<Rightarrow> 'k \<Rightarrow> 'v option" where
  "dict_get d k = map_of d k"

fun dict_set :: "('k, 'v) dict \<Rightarrow> 'k \<Rightarrow> 'v \<Rightarrow> ('k, 'v) dict" where
  "dict_set [] k v = [(k, v)]"
| "dict_set (p # ps) k v = (if fst p = k then (k, v) # ps else p # dict_set ps k v)"

section \<open>ProcessingStats\<close>

datatype FailureReason =
    CONNECTION_ERROR
  | TIMEOUT_ERROR
  | HTTP_ERROR
  | PROCESSING_ERROR
  | CONTENT_EXTRACTION_ERROR
  | BEDROCK_ERROR
  | SWAGGER_DETECTION_ERROR
  | OPENAPI_SPEC_ERROR
  | API_ENDPOINT_EXTRACTION_ERROR
  | UNKNOWN_ERROR

fun reason_value :: "FailureReason \<Rightarrow> string" where
  "reason_value CONNECTION_ERROR = ''connection_error''"
| "reason_value TIMEOUT_ERROR = ''timeout_error''"
| "reason_value HTTP_ERROR = ''http_error''"
| "reason_value PROCESSING_ERROR = ''processing_error''"
| "reason_value CONTENT_EXTRACTION_ERROR = ''content_extraction_error''"
| "reason_value BEDROCK_ERROR = ''bedrock_error''"
| "reason_value SWAGGER_DETECTION_ERROR = ''swagger_detection_error''"
| "reason_value OPENAPI_SPEC_ERROR = ''openapi_spec_error''"
| "reason_value API_ENDPOINT_EXTRACTION_ERROR = ''api_endpoint_extraction_error''"
| "reason_value UNKNOWN_ERROR = ''unknown_error''"

text \<open>The value stored under a URL in \<open>failed_urls\<close>; the timestamp is the
  text \<open>datetime.now().isoformat()\<close> returned when the failure was recorded.\<close>

record failure_info =
  reason :: string
  error_msg :: string
  timestamp :: string

record ProcessingStats =
  base_url :: string
  total_urls_discovered :: nat
  successful_urls :: "string list"
  failed_urls :: "(string, failure_info) dict"
  processing_start_time :: real
  processing_end_time :: real
  swagger_pages_detected :: nat
  api_endpoints_extracted :: nat
  swagger_extraction_methods :: "(string, nat) dict"
  swagger_urls :: "string list"

text \<open>The dataclass constructor: every field but \<open>base_url\<close> takes its default;
  \<open>now\<close> is the reading of \<open>time.time()\<close> at construction.\<close>

definition new_stats :: "string \<Rightarrow> real \<Rightarrow> ProcessingStats" where
  "new_stats b now =
     \<lparr> base_url = b, total_urls_discovered = 0, successful_urls = [], failed_urls = [],
       processing_start_time = now, processing_end_time = 0,
       swagger_pages_detected = 0, api_endpoints_extracted = 0,
       swagger_extraction_methods = [], swagger_urls = [] \<rparr>"

definition success_count :: "ProcessingStats \<Rightarrow> nat" where
  "success_count s = length (successful_urls s)"

definition failure_count :: "ProcessingStats \<Rightarrow> nat" where
  "failure_count s = length (failed_urls s)"

definition add_success :: "ProcessingStats \<Rightarrow> string \<Rightarrow> ProcessingStats" where
  "add_success s url =
     (if url \<notin> set (successful_urls s)
      then s\<lparr>successful_urls := successful_urls s @ [url]\<rparr>
      else s)"

definition add_failure ::
  "ProcessingStats \<Rightarrow> string \<Rightarrow> FailureReason \<Rightarrow> string \<Rightarrow> string \<Rightarrow> ProcessingStats" where
  "add_failure s url r msg now_iso =
     s\<lparr>failed_urls := dict_set (failed_urls s) url
          \<lparr>reason = reason_value r, error_msg = msg, timestamp = now_iso\<rparr>\<rparr>"

definition add_swagger_detection ::
  "ProcessingStats \<Rightarrow> string \<Rightarrow> string \<Rightarrow> nat \<Rightarrow> ProcessingStats" where
  "add_swagger_detection s url extraction_method endpoints_count =
     (let s1 = s\<lparr>swagger_pages_detected := swagger_pages_detected s + 1,
                  swagger_urls := swagger_urls s @ [url],
                  api_endpoints_extracted := api_endpoints_extracted s + endpoints_count\<rparr>;
          ms = swagger_extraction_methods s1;
          ms1 = (if extraction_method \<notin> set (dict_keys ms)
                 then dict_set ms extraction_method 0 else ms);
          ms2 = dict_set ms1 extraction_method
                  (case dict_get ms1 extraction_method of Some c \<Rightarrow> c + 1 | None \<Rightarrow> 1)
      in s1\<lparr>swagger_extraction_methods := ms2\<rparr>)"

section \<open>Strings and JSON values as Python sees them\<close>

text \<open>
  \<open>str.lower\<close> and \<open>str.upper\<close> on ASCII text, \<open>str.startswith\<close>,
  \<open>str.endswith\<close> and the substring test \<open>sub in s\<close>.
\<close>

definition lower_char :: "char \<Rightarrow> char" where
  "lower_char c =
     (case map_of (zip ''ABCDEFGHIJKLMNOPQRSTUVWXYZ'' ''abcdefghijklmnopqrstuvwxyz'') c of
        Some d \<Rightarrow> d | None \<Rightarrow> c)"

definition upper_char :: "char \<Rightarrow> char" where
  "upper_char c =
     (case map_of (zip ''abcdefghijklmnopqrstuvwxyz'' ''ABCDEFGHIJKLMNOPQRSTUVWXYZ'') c of
        Some d \<Rightarrow> d | None \<Rightarrow> c)"

definition lower :: "string \<Rightarrow> string" where
  "lower s = map lower_char s"

definition upper :: "string \<Rightarrow> string" where
  "upper s = map upper_char s"

fun startswith :: "string \<Rightarrow> string \<Rightarrow> bool" where
  "startswith s [] = True"
| "startswith [] (p # ps) = False"
| "startswith (c # cs) (p # ps) = (c = p \<and> startswith cs ps)"

definition endswith :: "string \<Rightarrow> string \<Rightarrow> bool" where
  "endswith s suffix = startswith (rev s) (rev suffix)"

fun str_in :: "string \<Rightarrow> string \<Rightarrow> bool" where
  "str_in sub [] = (sub = [])"
| "str_in sub (c # cs) = (startswith (c # cs) sub \<or> str_in sub cs)"

text \<open>
  The values \<open>json.loads\<close> produces: \<open>None\<close>, booleans, integers, strings, lists
  and dictionaries (floating-point numbers are left out of the model). The same
  datatype holds the dictionaries and lists that the scraper builds itself.
\<close>

datatype json =
    JNull
  | JBool bool
  | JNum int
  | JStr string
  | JArr "json list"
  | JObj "(string \<times> json) list"

text \<open>Python truthiness, as tested by \<open>if x\<close>, \<open>not x\<close> and \<open>x and y\<close>.\<close>

fun truthy :: "json \<Rightarrow> bool" where
  "truthy JNull = False"
| "truthy (JBool b) = b"
| "truthy (JNum n) = (n \<noteq> 0)"
| "truthy (JStr s) = (s \<noteq> [])"
| "truthy (JArr xs) = (xs \<noteq> [])"
| "truthy (JObj kvs) = (kvs \<noteq> [])"

text \<open>
  The operations below return \<open>None\<close> where Python raises (\<open>AttributeError\<close>,
  \<open>TypeError\<close> or \<open>KeyError\<close>): \<open>x.get(k, d)\<close> and \<open>x.items()\<close> exist on
  dictionaries only; \<open>k in x\<close> is a key test on a dictionary, an element test on a
  list and a substring test on a string; \<open>x[k]\<close> with a string \<open>k\<close> needs a
  dictionary that has the key; \<open>for y in x\<close> runs over the elements of a list, the
  keys of a dictionary and the characters of a string; \<open>x[k] = v\<close> needs a
  dictionary; \<open>x.append(v)\<close> needs a list; \<open>x.lower()\<close> needs a string.
\<close>

fun py_get :: "json \<Rightarrow> string \<Rightarrow> json \<Rightarrow> json option" where
  "py_get (JObj kvs) k d = Some (case map_of kvs k of Some v \<Rightarrow> v | None \<Rightarrow> d)"
| "py_get _ k d = None"

fun py_items :: "json \<Rightarrow> (string \<times> json) list option" where
  "py_items (JObj kvs) = Some kvs"
| "py_items _ = None"

fun py_in :: "string \<Rightarrow> json \<Rightarrow> bool option" where
  "py_in k (JObj kvs) = Some (k \<in> set (map fst kvs))"
| "py_in k (JArr xs) = Some (JStr k \<in> set xs)"
| "py_in k (JStr s) = Some (str_in k s)"
| "py_in k _ = None"

fun py_index :: "json \<Rightarrow> string \<Rightarrow> json option" where
  "py_index (JObj kvs) k = map_of kvs k"
| "py_index _ k = None"

fun py_iter :: "json \<Rightarrow> json list option" where
  "py_iter (JArr xs) = Some xs"
| "py_iter (JObj kvs) = Some (map (\<lambda>kv. JStr (fst kv)) kvs)"
| "py_iter (JStr s) = Some (map (\<lambda>c. JStr [c]) s)"
| "py_iter _ = None"

fun py_setitem :: "json \<Rightarrow> string \<Rightarrow> json \<Rightarrow> json option" where
  "py_setitem (JObj kvs) k v = Some (JObj (dict_set kvs k v))"
| "py_setitem _ k v = None"

fun py_append :: "json \<Rightarrow> json \<Rightarrow> json option" where
  "py_append (JArr xs) v = Some (JArr (xs @ [v]))"
| "py_append _ v = None"

fun py_lower :: "json \<Rightarrow> string option" where
  "py_lower (JStr s) = Some (lower s)"
| "py_lower _ = None"

text \<open>A loop whose body may raise: the first exception ends it.\<close>

fun for_each :: "('a \<Rightarrow> 's \<Rightarrow> 's option) \<Rightarrow> 'a list \<Rightarrow> 's \<Rightarrow> 's option" where
  "for_each body [] s = Some s"
| "for_each body (x # xs) s = (case body x s of None \<Rightarrow> None | Some s' \<Rightarrow> for_each body xs s')"

section \<open>Example enrichment\<close>

text \<open>
  \<open>html_examples\<close> is the dictionary returned by \<open>extract_examples_from_html\<close>
  (three lists of strings under \<open>parameter_examples\<close>, \<open>response_examples\<close> and
  \<open>code_examples\<close>) or the empty dictionary. \<open>html_get\<close> is
  \<open>html_examples.get(k)\<close> with a missing key read as the empty list: the source
  only tests the result for truth before it reads it.
\<close>

type_synonym html_examples = "(string, string list) dict"

definition html_get :: "html_examples \<Rightarrow> string \<Rightarrow> string list" where
  "html_get he k = (case dict_get he k of Some xs \<Rightarrow> xs | None \<Rightarrow> [])"

definition html_extracted :: "string \<Rightarrow> json" where
  "html_extracted example = JObj [(''type'', JStr ''html_extracted''), (''example'', JStr example)]"

definition code_example :: "string \<Rightarrow> json" where
  "code_example example = JObj [(''type'', JStr ''code_example''), (''example'', JStr example)]"

text \<open>The body of the loop over the parameters of one endpoint.\<close>

definition enhance_param :: "html_examples \<Rightarrow> json \<Rightarrow> json option" where
  "enhance_param he param = do {
     ex \<leftarrow> py_get param ''example'' JNull;
     if \<not> truthy ex \<and> html_get he ''parameter_examples'' \<noteq> [] then do {
       nm \<leftarrow> py_get param ''name'' (JStr '''');
       param_name \<leftarrow> py_lower nm;
       case find (\<lambda>example. str_in param_name (lower example)
                    \<or> length (html_get he ''parameter_examples'') = 1)
              (html_get he ''parameter_examples'') of
         Some example \<Rightarrow> py_setitem param ''example'' (JStr example)
       | None \<Rightarrow> Some param
     } else Some param
   }"

text \<open>\<open>endpoint['examples'].append(x)\<close> for each \<open>x\<close> of a list.\<close>

definition append_example :: "json \<Rightarrow> json \<Rightarrow> json option" where
  "append_example x endpoint = do {
     l \<leftarrow> py_index endpoint ''examples'';
     l' \<leftarrow> py_append l x;
     py_setitem endpoint ''examples'' l'
   }"

text \<open>
  The body of the loop over the endpoints, in the three steps the source marks with
  comments: parameter examples, response examples, code examples. Each writes
  \<open>endpoint['examples'] = endpoint.get('examples', [])\<close> before it appends.
\<close>

definition add_parameter_examples :: "html_examples \<Rightarrow> json \<Rightarrow> json option" where
  "add_parameter_examples he endpoint = do {
     pv \<leftarrow> py_get endpoint ''parameters'' (JArr []);
     params \<leftarrow> py_iter pv;
     params' \<leftarrow> those (map (enhance_param he) params);
     if params' = params then Some endpoint
     else py_setitem endpoint ''parameters'' (JArr params')
   }"

definition set_and_append :: "json list \<Rightarrow> json \<Rightarrow> json option" where
  "set_and_append new endpoint = do {
     cur \<leftarrow> py_get endpoint ''examples'' (JArr []);
     e \<leftarrow> py_setitem endpoint ''examples'' cur;
     for_each append_example new e
   }"

definition add_response_examples :: "html_examples \<Rightarrow> json \<Rightarrow> json option" where
  "add_response_examples he endpoint = do {
     ex \<leftarrow> py_get endpoint ''examples'' JNull;
     if \<not> truthy ex \<and> html_get he ''response_examples'' \<noteq> []
     then set_and_append (map html_extracted (take 3 (html_get he ''response_examples''))) endpoint
     else Some endpoint
   }"

definition add_code_examples :: "html_examples \<Rightarrow> json \<Rightarrow> json option" where
  "add_code_examples he endpoint =
     (if html_get he ''code_examples'' \<noteq> []
      then set_and_append (map code_example (take 2 (html_get he ''code_examples''))) endpoint
      else Some endpoint)"

definition enhance_endpoint :: "html_examples \<Rightarrow> json \<Rightarrow> json option" where
  "enhance_endpoint he endpoint = do {
     e1 \<leftarrow> add_parameter_examples he endpoint;
     e2 \<leftarrow> add_response_examples he e1;
     add_code_examples he e2
   }"

definition enhance_endpoints_with_html_examples ::
  "json list \<Rightarrow> html_examples \<Rightarrow> json list option" where
  "enhance_endpoints_with_html_examples endpoints he =
     (if he = [] then Some endpoints
      else those (map (enhance_endpoint he) endpoints))"

text \<open>What the claims call the examples of an endpoint: the list under the key
  \<open>examples\<close>, and whether the endpoint has any (\<open>endpoint.get('examples')\<close> is
  true).\<close>

definition examples_of :: "json \<Rightarrow> json list" where
  "examples_of endpoint =
     (case py_get endpoint ''examples'' (JArr []) of Some (JArr xs) \<Rightarrow> xs | _ \<Rightarrow> [])"

definition has_examples :: "json \<Rightarrow> bool" where
  "has_examples endpoint =
     (case py_get endpoint ''examples'' JNull of Some v \<Rightarrow> truthy v | None \<Rightarrow> False)"

section \<open>Parsing an OpenAPI document\<close>

definition http_methods :: "string list" where
  "http_methods = [''get'', ''post'', ''put'', ''delete'', ''patch'', ''options'', ''head'']"

text \<open>The dictionary built for one entry of \<open>operation.get('parameters', [])\<close>.\<close>

definition param_info :: "json \<Rightarrow> json option" where
  "param_info param = do {
     name \<leftarrow> py_get param ''name'' JNull;
     loc \<leftarrow> py_get param ''in'' JNull;
     required \<leftarrow> py_get param ''required'' (JBool False);
     type \<leftarrow> py_get param ''type'' (JStr '''');
     description \<leftarrow> py_get param ''description'' (JStr '''');
     example \<leftarrow> py_get param ''example'' JNull;
     Some (JObj [(''name'', name), (''in'', loc), (''required'', required), (''type'', type),
                 (''description'', description), (''example'', example)])
   }"

text \<open>The examples of one content type of a request body, appended to the
  endpoint's \<open>examples\<close> list.\<close>

definition request_named_example :: "string \<Rightarrow> (string \<times> json) \<Rightarrow> json list \<Rightarrow> json list option" where
  "request_named_example content_type item examples = do {
     v \<leftarrow> py_get (snd item) ''value'' (snd item);
     Some (examples @ [JObj [(''type'', JStr ''request_body''), (''name'', JStr (fst item)),
                             (''content_type'', JStr content_type), (''example'', v)]])
   }"

definition request_content_examples :: "(string \<times> json) \<Rightarrow> json list \<Rightarrow> json list option" where
  "request_content_examples item examples = do {
     has_example \<leftarrow> py_in ''example'' (snd item);
     ex1 \<leftarrow> (if has_example then do {
              e \<leftarrow> py_index (snd item) ''example'';
              Some (examples @ [JObj [(''type'', JStr ''request_body''),
                                      (''content_type'', JStr (fst item)), (''example'', e)]])
            } else Some examples);
     has_named \<leftarrow> py_in ''examples'' (snd item);
     if has_named then do {
       named \<leftarrow> py_index (snd item) ''examples'';
       items \<leftarrow> py_items named;
       for_each (request_named_example (fst item)) items ex1
     } else Some ex1
   }"

definition request_body_examples :: "json \<Rightarrow> json list \<Rightarrow> json list option" where
  "request_body_examples operation examples = do {
     has_body \<leftarrow> py_in ''requestBody'' operation;
     if has_body then do {
       request_body \<leftarrow> py_index operation ''requestBody'';
       has_content \<leftarrow> py_in ''content'' request_body;
       if has_content then do {
         content \<leftarrow> py_index request_body ''content'';
         items \<leftarrow> py_items content;
         for_each request_content_examples items examples
       } else Some examples
     } else Some examples
   }"

text \<open>
  One response. The state of the loops is the pair of the response's own
  \<open>examples\<close> dictionary and the endpoint's \<open>examples\<close> list.
\<close>

definition response_named_example ::
  "string \<Rightarrow> string \<Rightarrow> (string \<times> json) \<Rightarrow> (string, json) dict \<times> json list
     \<Rightarrow> ((string, json) dict \<times> json list) option" where
  "response_named_example status_code content_type item st = do {
     example_value \<leftarrow> py_get (snd item) ''value'' (snd item);
     Some (dict_set (fst st) (content_type @ ''_'' @ fst item) example_value,
           snd st @ [JObj [(''type'', JStr ''response''), (''name'', JStr (fst item)),
                           (''status_code'', JStr status_code),
                           (''content_type'', JStr content_type), (''example'', example_value)]])
   }"

definition response_content_examples ::
  "string \<Rightarrow> (string \<times> json) \<Rightarrow> (string, json) dict \<times> json list
     \<Rightarrow> ((string, json) dict \<times> json list) option" where
  "response_content_examples status_code item st = do {
     has_example \<leftarrow> py_in ''example'' (snd item);
     st1 \<leftarrow> (if has_example then do {
              e \<leftarrow> py_index (snd item) ''example'';
              Some (dict_set (fst st) (fst item) e,
                    snd st @ [JObj [(''type'', JStr ''response''),
                                    (''status_code'', JStr status_code),
                                    (''content_type'', JStr (fst item)), (''example'', e)]])
            } else Some st);
     has_named \<leftarrow> py_in ''examples'' (snd item);
     if has_named then do {
       named \<leftarrow> py_index (snd item) ''examples'';
       items \<leftarrow> py_items named;
       for_each (response_named_example status_code (fst item)) items st1
     } else Some st1
   }"

definition legacy_example :: "string \<Rightarrow> (string \<times> json) \<Rightarrow> json" where
  "legacy_example status_code item =
     JObj [(''type'', JStr ''response''), (''name'', JStr (fst item)),
           (''status_code'', JStr status_code), (''example'', snd item)]"

definition response_entry ::
  "(string \<times> json) \<Rightarrow> (string, json) dict \<times> json list
     \<Rightarrow> ((string, json) dict \<times> json list) option" where
  "response_entry item st = do {
     description \<leftarrow> py_get (snd item) ''description'' (JStr '''');
     schema \<leftarrow> py_get (snd item) ''schema'' (JObj []);
     has_content \<leftarrow> py_in ''content'' (snd item);
     st1 \<leftarrow> (if has_content then do {
              content \<leftarrow> py_index (snd item) ''content'';
              items \<leftarrow> py_items content;
              for_each (response_content_examples (fst item)) items ([], snd st)
            } else Some ([], snd st));
     has_named \<leftarrow> py_in ''examples'' (snd item);
     st2 \<leftarrow> (if has_named then do {
              legacy \<leftarrow> py_index (snd item) ''examples'';
              items \<leftarrow> py_items legacy;
              Some (fold (\<lambda>kv d. dict_set d (fst kv) (snd kv)) items (fst st1),
                    snd st1 @ map (legacy_example (fst item)) items)
            } else Some st1);
     Some (dict_set (fst st) (fst item)
             (JObj [(''description'', description), (''schema'', schema),
                    (''examples'', JObj (fst st2))]),
           snd st2)
   }"

definition operation_example :: "(string \<times> json) \<Rightarrow> json" where
  "operation_example item =
     JObj [(''type'', JStr ''operation''), (''name'', JStr (fst item)), (''example'', snd item)]"

definition operation_examples :: "json \<Rightarrow> json list \<Rightarrow> json list option" where
  "operation_examples operation examples = do {
     has_named \<leftarrow> py_in ''examples'' operation;
     if has_named then do {
       exs \<leftarrow> py_index operation ''examples'';
       case exs of
         JArr xs \<Rightarrow> Some (examples @ xs)
       | JObj kvs \<Rightarrow> Some (examples @ map operation_example kvs)
       | _ \<Rightarrow> Some examples
     } else Some examples
   }"

text \<open>The body of the inner loop for a key that passed the method test.\<close>

definition endpoint_info :: "string \<Rightarrow> string \<Rightarrow> json \<Rightarrow> json option" where
  "endpoint_info path method operation = do {
     summary \<leftarrow> py_get operation ''summary'' (JStr '''');
     description \<leftarrow> py_get operation ''description'' (JStr '''');
     pv \<leftarrow> py_get operation ''parameters'' (JArr []);
     params \<leftarrow> py_iter pv;
     parameters \<leftarrow> those (map param_info params);
     ex1 \<leftarrow> request_body_examples operation [];
     rv \<leftarrow> py_get operation ''responses'' (JObj []);
     ritems \<leftarrow> py_items rv;
     st \<leftarrow> for_each response_entry ritems ([], ex1);
     ex3 \<leftarrow> operation_examples operation (snd st);
     Some (JObj [(''method'', JStr (upper method)), (''path'', JStr path),
                 (''summary'', summary), (''description'', description),
                 (''parameters'', JArr parameters), (''responses'', JObj (fst st)),
                 (''examples'', JArr ex3)])
   }"

definition method_endpoint :: "string \<Rightarrow> (string \<times> json) \<Rightarrow> json list \<Rightarrow> json list option" where
  "method_endpoint path item endpoints =
     (if lower (fst item) \<in> set http_methods then do {
        e \<leftarrow> endpoint_info path (fst item) (snd item);
        Some (endpoints @ [e])
      } else Some endpoints)"

definition path_endpoints :: "(string \<times> json) \<Rightarrow> json list \<Rightarrow> json list option" where
  "path_endpoints item endpoints = do {
     methods \<leftarrow> py_items (snd item);
     for_each (method_endpoint (fst item)) methods endpoints
   }"

text \<open>\<open>a + b\<close> on the values a JSON document can hold: strings and lists are
  concatenated, integers and booleans are added as integers, anything else raises.\<close>

fun num_of :: "json \<Rightarrow> int option" where
  "num_of (JNum n) = Some n"
| "num_of (JBool b) = Some (if b then 1 else 0)"
| "num_of _ = None"

fun py_add :: "json \<Rightarrow> json \<Rightarrow> json option" where
  "py_add (JStr a) (JStr b) = Some (JStr (a @ b))"
| "py_add (JArr a) (JArr b) = Some (JArr (a @ b))"
| "py_add a b = (case (num_of a, num_of b) of (Some x, Some y) \<Rightarrow> Some (JNum (x + y)) | _ \<Rightarrow> None)"

text \<open>The loop over \<open>paths\<close>, the \<open>api_info\<close> dictionary of the result, and
  the function itself.\<close>

definition collect_endpoints :: "json \<Rightarrow> json list option" where
  "collect_endpoints spec_data = do {
     paths \<leftarrow> py_get spec_data ''paths'' (JObj []);
     pitems \<leftarrow> py_items paths;
     for_each path_endpoints pitems []
   }"

definition api_info :: "json \<Rightarrow> json option" where
  "api_info spec_data = do {
     info1 \<leftarrow> py_get spec_data ''info'' (JObj []);
     title \<leftarrow> py_get info1 ''title'' (JStr '''');
     info2 \<leftarrow> py_get spec_data ''info'' (JObj []);
     version \<leftarrow> py_get info2 ''version'' (JStr '''');
     info3 \<leftarrow> py_get spec_data ''info'' (JObj []);
     description \<leftarrow> py_get info3 ''description'' (JStr '''');
     host \<leftarrow> py_get spec_data ''host'' (JStr '''');
     base_path \<leftarrow> py_get spec_data ''basePath'' (JStr '''');
     base \<leftarrow> py_add host base_path;
     Some (JObj [(''title'', title), (''version'', version),
                 (''description'', description), (''base_url'', base)])
   }"

definition parse_openapi_spec :: "json \<Rightarrow> json option" where
  "parse_openapi_spec spec_data = do {
     endpoints \<leftarrow> collect_endpoints spec_data;
     info \<leftarrow> api_info spec_data;
     Some (JObj [(''api_info'', info),
                 (''endpoints'', JArr endpoints),
                 (''total_endpoints'', JNum (int (length endpoints)))])
   }"

text \<open>
  The (path, method) pairs of a document: every key of every path item of the
  \<open>paths\<close> object that satisfies a test on the key. The parser's test is
  \<open>method.lower() in [...]\<close>; the OpenAPI format writes method keys in lower case,
  and \<open>method_keys_lowercase\<close> says that the document does.
\<close>

definition item_methods :: "(string \<Rightarrow> bool) \<Rightarrow> (string \<times> json) \<Rightarrow> (string \<times> string) list" where
  "item_methods recognized item =
     (case snd item of
        JObj ms \<Rightarrow> map (\<lambda>m. (fst item, fst m)) (filter (\<lambda>m. recognized (fst m)) ms)
      | _ \<Rightarrow> [])"

definition method_pairs :: "(string \<Rightarrow> bool) \<Rightarrow> json \<Rightarrow> (string \<times> string) list" where
  "method_pairs recognized spec_data =
     (case py_get spec_data ''paths'' (JObj []) of
        Some (JObj ps) \<Rightarrow> concat (map (item_methods recognized) ps)
      | _ \<Rightarrow> [])"

definition all_method_keys :: "json \<Rightarrow> string list" where
  "all_method_keys spec_data = map snd (method_pairs (\<lambda>m. True) spec_data)"

definition method_keys_lowercase :: "json \<Rightarrow> bool" where
  "method_keys_lowercase spec_data =
     list_all (\<lambda>m. lower m \<in> set http_methods \<longrightarrow> m \<in> set http_methods)
       (all_method_keys spec_data)"

text \<open>The path and the method recorded in an endpoint of the result.\<close>

definition endpoint_key :: "json \<Rightarrow> json option \<times> json option" where
  "endpoint_key e = (py_index e ''path'', py_index e ''method'')"

text \<open>The document of the specification's scenario B: one path \<open>/pets\<close> with one
  \<open>get\<close> operation.\<close>

definition scenario_b_spec :: json where
  "scenario_b_spec = JObj [(''openapi'', JStr ''3.0.0''),
     (''paths'', JObj [(''/pets'', JObj [(''get'', JObj [(''summary'', JStr ''List pets''),
         (''responses'', JObj [(''200'', JObj [(''description'', JStr ''OK'')])])])])])]"

definition scenario_b_endpoint :: json where
  "scenario_b_endpoint =
     JObj [(''method'', JStr ''GET''), (''path'', JStr ''/pets''),
           (''summary'', JStr ''List pets''), (''description'', JStr ''''),
           (''parameters'', JArr []),
           (''responses'', JObj [(''200'', JObj [(''description'', JStr ''OK''),
                                                 (''schema'', JObj []), (''examples'', JObj [])])]),
           (''examples'', JArr [])]"

text \<open>The same document with a specification extension beside the path: the entry
  \<open>"x-note": "internal"\<close> of the \<open>paths\<close> object, which the OpenAPI format allows
  (\<open>paths\<close> may carry \<open>x-\<close> fields of any value).\<close>

definition extension_spec :: json where
  "extension_spec = JObj [(''openapi'', JStr ''3.0.0''),
     (''paths'', JObj [(''/pets'', JObj [(''get'', JObj [(''summary'', JStr ''List pets''),
         (''responses'', JObj [(''200'', JObj [(''description'', JStr ''OK'')])])])]),
                       (''x-note'', JStr ''internal'')])]"
section \<open>Lenient JSON parsing and specification resolution\<close>

text \<open>
  The two substitutions of \<open>_parse_json_with_comments\<close>.
  \<open>re.sub(r'//.*$', '', text, flags=re.MULTILINE)\<close> deletes, from every \<open>//\<close>, the
  characters up to the next line feed (which stays) or the end of the text.
  \<open>re.sub(r'/\*.*?\*/', '', text, flags=re.DOTALL)\<close> deletes every \<open>/*\<close> together
  with the text up to and including the nearest following \<open>*/\<close>; a \<open>/*\<close> that is
  never closed stays.
\<close>

definition newline :: char where
  "newline = CHR 0x0A"

fun strip_line :: "bool \<Rightarrow> string \<Rightarrow> string" where
  "strip_line in_comment [] = []"
| "strip_line True (c # cs) =
     (if c = newline then c # strip_line False cs else strip_line True cs)"
| "strip_line False (c # cs) =
     (if startswith (c # cs) ''//'' then strip_line True cs else c # strip_line False cs)"

definition strip_line_comments :: "string \<Rightarrow> string" where
  "strip_line_comments text = strip_line False text"

datatype block_state = Outside | Opening | Inside | Closing

fun strip_block :: "block_state \<Rightarrow> string \<Rightarrow> string" where
  "strip_block st [] = []"
| "strip_block Outside (c # cs) =
     (if startswith (c # cs) ''/*'' \<and> str_in ''*/'' (drop 1 cs)
      then strip_block Opening cs else c # strip_block Outside cs)"
| "strip_block Opening (c # cs) = strip_block Inside cs"
| "strip_block Inside (c # cs) =
     (if startswith (c # cs) ''*/'' then strip_block Closing cs else strip_block Inside cs)"
| "strip_block Closing (c # cs) = strip_block Outside cs"

definition strip_block_comments :: "string \<Rightarrow> string" where
  "strip_block_comments text = strip_block Outside text"

text \<open>
  \<open>json.loads\<close> is the standard library's strict parser. The model takes it as a
  parameter \<open>loads\<close>: on a text it returns a value, raises \<open>JSONDecodeError\<close>, or
  raises another exception (\<open>RecursionError\<close> on a text nested too deeply, for one).
\<close>

datatype loads_result = Loaded json | JSONDecodeError | OtherError

datatype 'a outcome = Returned 'a | Raised

text \<open>
  \<open>_parse_json_with_comments\<close>. The result \<open>None\<close> is \<open>JNull\<close>. The handler
  \<open>except Exception\<close> belongs to the outer \<open>try\<close>: it catches what the first
  \<open>json.loads\<close> raises, not what is raised inside the \<open>except json.JSONDecodeError\<close>
  handler, where the second \<open>json.loads\<close> runs under a \<open>try\<close> that catches
  \<open>JSONDecodeError\<close> only.
\<close>

definition parse_json_with_comments :: "(string \<Rightarrow> loads_result) \<Rightarrow> string \<Rightarrow> json outcome" where
  "parse_json_with_comments loads text_content =
     (case loads text_content of
        Loaded v \<Rightarrow> Returned v
      | OtherError \<Rightarrow> Returned JNull
      | JSONDecodeError \<Rightarrow>
          (case loads (strip_block_comments (strip_line_comments text_content)) of
             Loaded v \<Rightarrow> Returned v
           | JSONDecodeError \<Rightarrow> Returned JNull
           | OtherError \<Rightarrow> Raised))"

text \<open>
  Fetching a candidate: \<open>session.get(spec_url)\<close> followed by reading the body either
  gives a status and a text or raises. The asynchronous and the synchronous branch of
  \<open>extract_openapi_spec\<close> run the same steps, so the model has one.
\<close>

datatype http_response = Response nat string | RequestFailed

record spec_result =
  spec :: json
  source_url :: string
  success :: bool

definition spec_keys :: "string list" where
  "spec_keys = [''swagger'', ''openapi'', ''paths'']"

text \<open>\<open>any(key in spec_data for key in keys)\<close>: the keys are tried in order, the
  first hit ends the search, and a \<open>TypeError\<close> of \<open>in\<close> ends it with \<open>None\<close>.\<close>

fun any_key_in :: "string list \<Rightarrow> json \<Rightarrow> bool option" where
  "any_key_in [] d = Some False"
| "any_key_in (k # ks) d =
     (case py_in k d of
        None \<Rightarrow> None
      | Some True \<Rightarrow> Some True
      | Some False \<Rightarrow> any_key_in ks d)"

text \<open>The body of the loop of \<open>extract_openapi_spec\<close>: \<open>Some\<close> is the
  \<open>return\<close>, \<open>None\<close> goes on to the next candidate (also after an exception, which
  the loop body catches).\<close>

definition try_candidate ::
  "(string \<Rightarrow> http_response) \<Rightarrow> (string \<Rightarrow> loads_result) \<Rightarrow> string \<Rightarrow> spec_result option" where
  "try_candidate fetch loads spec_url =
     (case fetch spec_url of
        RequestFailed \<Rightarrow> None
      | Response status text_content \<Rightarrow>
          if status = 200 then
            (case parse_json_with_comments loads text_content of
               Raised \<Rightarrow> None
             | Returned spec_data \<Rightarrow>
                 if truthy spec_data then
                   (case any_key_in spec_keys spec_data of
                      Some True \<Rightarrow> Some \<lparr>spec = spec_data, source_url = spec_url, success = True\<rparr>
                    | _ \<Rightarrow> None)
                 else None)
          else None)"

fun extract_openapi_spec ::
  "(string \<Rightarrow> http_response) \<Rightarrow> (string \<Rightarrow> loads_result) \<Rightarrow> string list \<Rightarrow> spec_result option" where
  "extract_openapi_spec fetch loads [] = None"
| "extract_openapi_spec fetch loads (spec_url # rest) =
     (case try_candidate fetch loads spec_url of
        Some r \<Rightarrow> Some r
      | None \<Rightarrow> extract_openapi_spec fetch loads rest)"

text \<open>
  The loop in closed form, for the proofs: \<open>validates\<close> is the test of the code on a
  parsed body, Python's \<open>in\<close> for one of the three keys (a key of a dictionary, an
  element of a list, a substring of a string); a candidate wins when it answers with
  status 200 and its body parses to a value that passes the test.
\<close>

definition validates :: "json \<Rightarrow> bool" where
  "validates doc = list_ex (\<lambda>key. py_in key doc = Some True) spec_keys"

definition parsed_body ::
  "(string \<Rightarrow> http_response) \<Rightarrow> (string \<Rightarrow> loads_result) \<Rightarrow> string \<Rightarrow> json option" where
  "parsed_body fetch loads spec_url =
     (case fetch spec_url of
        Response status text_content \<Rightarrow>
          (if status = 200 then
             (case parse_json_with_comments loads text_content of
                Returned doc \<Rightarrow> Some doc | Raised \<Rightarrow> None)
           else None)
      | RequestFailed \<Rightarrow> None)"

definition candidate_wins ::
  "(string \<Rightarrow> http_response) \<Rightarrow> (string \<Rightarrow> loads_result) \<Rightarrow> string \<Rightarrow> bool" where
  "candidate_wins fetch loads spec_url =
     (case parsed_body fetch loads spec_url of Some doc \<Rightarrow> validates doc | None \<Rightarrow> False)"

definition first_valid_spec ::
  "(string \<Rightarrow> http_response) \<Rightarrow> (string \<Rightarrow> loads_result) \<Rightarrow> string list \<Rightarrow> spec_result option" where
  "first_valid_spec fetch loads candidates =
     (case find (candidate_wins fetch loads) candidates of
        None \<Rightarrow> None
      | Some u \<Rightarrow>
          (case parsed_body fetch loads u of
             None \<Rightarrow> None
           | Some doc \<Rightarrow> Some \<lparr>spec = doc, source_url = u, success = True\<rparr>))"

text \<open>
  The words of the specification, for comparison with the code. \<open>validate(doc)\<close> is
  true iff the parsed object contains at least one of the keys \<open>swagger\<close>,
  \<open>openapi\<close>, \<open>paths\<close>: the document is an object and one of the three is among
  its keys. The lenient parser gives a value or null. A success status is one of the
  class 2xx. Resolution goes through the candidates in order and the first one that
  fetches with a success status and whose parsed body validates wins.
\<close>

definition spec_says_validate :: "json \<Rightarrow> bool" where
  "spec_says_validate doc =
     (case doc of
        JObj kvs \<Rightarrow> list_ex (\<lambda>key. key \<in> set (map fst kvs)) spec_keys
      | _ \<Rightarrow> False)"

definition spec_says_parse :: "(string \<Rightarrow> loads_result) \<Rightarrow> string \<Rightarrow> json" where
  "spec_says_parse loads text_content =
     (case loads text_content of
        Loaded v \<Rightarrow> v
      | _ \<Rightarrow>
          (case loads (strip_block_comments (strip_line_comments text_content)) of
             Loaded v \<Rightarrow> v
           | _ \<Rightarrow> JNull))"

definition success_status :: "nat \<Rightarrow> bool" where
  "success_status status = (200 \<le> status \<and> status < 300)"

definition spec_says_candidate ::
  "(string \<Rightarrow> http_response) \<Rightarrow> (string \<Rightarrow> loads_result) \<Rightarrow> string \<Rightarrow> json option" where
  "spec_says_candidate fetch loads spec_url =
     (case fetch spec_url of
        RequestFailed \<Rightarrow> None
      | Response status text_content \<Rightarrow>
          if success_status status \<and> spec_says_validate (spec_says_parse loads text_content)
          then Some (spec_says_parse loads text_content)
          else None)"

fun spec_says_resolution ::
  "(string \<Rightarrow> http_response) \<Rightarrow> (string \<Rightarrow> loads_result) \<Rightarrow> string list
     \<Rightarrow> (json \<times> string) option" where
  "spec_says_resolution fetch loads [] = None"
| "spec_says_resolution fetch loads (spec_url # rest) =
     (case spec_says_candidate fetch loads spec_url of
        Some doc \<Rightarrow> Some (doc, spec_url)
      | None \<Rightarrow> spec_says_resolution fetch loads rest)"

text \<open>
  An instance of \<open>loads\<close> for the text \<open>//\<close>, line feed, and a run of opening
  brackets. It agrees with \<open>json.loads\<close> there: the text itself is not JSON
  (\<open>JSONDecodeError\<close> at the first character), and the brackets alone, after
  leading line feeds, are nested deeper than the interpreter's recursion limit allows
  (\<open>RecursionError\<close>) when there are more than a thousand of them. On every other
  text it answers \<open>JSONDecodeError\<close>.
\<close>

definition brackets_loads :: "string \<Rightarrow> loads_result" where
  "brackets_loads text =
     (let body = dropWhile (\<lambda>c. c = newline) text
      in if body \<noteq> [] \<and> list_all (\<lambda>c. c = CHR ''['') body \<and> 1000 < length body
         then OtherError else JSONDecodeError)"

definition deep_text :: string where
  "deep_text = ''//'' @ [newline] @ replicate 100000 (CHR ''['')"

section \<open>Detection\<close>

text \<open>More of Python's string methods: \<open>s.split(c)\<close>, \<open>sep.join(ws)\<close>,
  \<open>s.replace(old, new)\<close> for a non-empty \<open>old\<close>, \<open>s.rstrip('/')\<close>, \<open>s.strip()\<close>
  and \<open>s.strip(chars)\<close>. A character is one of the first 256 code points;
  \<open>whitespace\<close> lists those of them that \<open>str.isspace\<close> accepts, which are the ones
  \<open>s.strip()\<close> removes: the ASCII white space, the four separators \<open>0x1C\<close> to
  \<open>0x1F\<close>, the next-line character \<open>0x85\<close> and the no-break space \<open>0xA0\<close>.\<close>

fun split_on :: "char \<Rightarrow> string \<Rightarrow> string list" where
  "split_on sep [] = [[]]"
| "split_on sep (c # cs) =
     (if c = sep then [] # split_on sep cs
      else (case split_on sep cs of [] \<Rightarrow> [[c]] | w # ws \<Rightarrow> (c # w) # ws))"

fun join_with :: "string \<Rightarrow> string list \<Rightarrow> string" where
  "join_with sep [] = []"
| "join_with sep [w] = w"
| "join_with sep (w # ws) = w @ sep @ join_with sep ws"

fun replace_from :: "nat \<Rightarrow> string \<Rightarrow> string \<Rightarrow> string \<Rightarrow> string" where
  "replace_from skip old new [] = []"
| "replace_from (Suc k) old new (c # cs) = replace_from k old new cs"
| "replace_from 0 old new (c # cs) =
     (if startswith (c # cs) old then new @ replace_from (length old - 1) old new cs
      else c # replace_from 0 old new cs)"

definition str_replace :: "string \<Rightarrow> string \<Rightarrow> string \<Rightarrow> string" where
  "str_replace s old new = replace_from 0 old new s"

definition strip_chars :: "char list \<Rightarrow> string \<Rightarrow> string" where
  "strip_chars chars s =
     rev (dropWhile (\<lambda>c. c \<in> set chars) (rev (dropWhile (\<lambda>c. c \<in> set chars) s)))"

definition rstrip_slash :: "string \<Rightarrow> string" where
  "rstrip_slash s = rev (dropWhile (\<lambda>c. c = CHR ''/'') (rev s))"

definition whitespace :: "char list" where
  "whitespace = [CHR 0x20, CHR 0x09, CHR 0x0A, CHR 0x0B, CHR 0x0C, CHR 0x0D,
                 CHR 0x1C, CHR 0x1D, CHR 0x1E, CHR 0x1F, CHR 0x85, CHR 0xA0]"

definition py_strip :: "string \<Rightarrow> string" where
  "py_strip s = strip_chars whitespace s"

text \<open>
  What the libraries report. \<open>soup_view\<close> is the page as the scraper reads it
  through BeautifulSoup and \<open>re\<close>: for the detector, the result of each
  \<open>soup.find\<close> (\<open>None\<close> when the call raised), the text of the title element, the
  number of matches of the HTTP-method pattern and the matches of the three
  specification-URL patterns in order; for the HTML fallback, the text of the heading
  and the endpoint blocks (\<open>None\<close> for a block whose handling raises); for the
  example miner, the matches of the four example patterns, the texts of the
  \<open>code\<close> and \<open>pre\<close> elements and the matches of the JSON-like pattern.
\<close>

record param_row =
  name_text :: "string option"
  desc_text :: "string option"
  has_required :: bool

record block_view =
  method_text :: "string option"
  path_text :: "string option"
  description_text :: "string option"
  param_rows :: "param_row list"
  example_texts :: "string list"

record soup_view =
  has_swagger_ui_div :: "bool option"
  has_swagger_ui_class :: "bool option"
  has_swagger_json_link :: "bool option"
  has_openapi_json_link :: "bool option"
  title_text :: "string option"
  has_opblock_class :: "bool option"
  has_try_it_out :: "bool option"
  http_method_count :: nat
  spec_matches :: "string list"
  heading_text :: "string option"
  endpoint_blocks :: "block_view option list"
  example_matches :: "string list"
  code_block_texts :: "string list"
  json_like_matches :: "string list"

text \<open>\<open>soup_of\<close> is \<open>BeautifulSoup(html, 'html.parser')\<close> with the searches above,
  \<open>urlparse\<close> gives scheme, host and path of a URL, \<open>urljoin\<close> resolves a reference
  against a URL. Both raise \<open>ValueError\<close> on some texts (a host that opens a bracket
  and does not close it, for one); \<open>None\<close> is that exception. \<open>nearest_float\<close> is
  the rounding of floating-point arithmetic: a decimal literal and the sum of two
  floats are the float nearest to the exact number.\<close>

record lib =
  soup_of :: "string \<Rightarrow> soup_view"
  urlparse :: "string \<Rightarrow> (string \<times> string \<times> string) option"
  urljoin :: "string \<Rightarrow> string \<Rightarrow> string option"
  nearest_float :: "real \<Rightarrow> real"

record detection =
  is_swagger :: bool
  confidence :: real
  indicators :: "string list"
  spec_urls :: "string list"
  extraction_method :: string

text \<open>\<open>DetectFailed\<close> is the dictionary \<open>{'is_swagger': False, 'error': ...}\<close>
  returned when the page had to be fetched and the fetch raised. The detector itself
  raises when \<open>urljoin\<close> or \<open>urlparse\<close> does: neither call is inside a \<open>try\<close>.\<close>

datatype detect_result = Detected detection | DetectFailed

definition strip_fragment :: "string \<Rightarrow> string" where
  "strip_fragment url =
     (if CHR ''#'' \<in> set url
      then (case split_on (CHR ''#'') url of w # ws \<Rightarrow> w | [] \<Rightarrow> url)
      else url)"

text \<open>The table of checks: name, outcome of calling the check (\<open>None\<close> when it
  raised) and weight. The weights are the source's decimal literals, read as floats.\<close>

type_synonym check = "string \<times> bool option \<times> real"

definition checks :: "(real \<Rightarrow> real) \<Rightarrow> soup_view \<Rightarrow> string \<Rightarrow> string \<Rightarrow> check list" where
  "checks fl soup clean_url html_content =
     (let content_lower = lower html_content in
      [(''swagger-ui div/id'', has_swagger_ui_div soup, fl (9/10)),
       (''swagger-ui class'', has_swagger_ui_class soup, fl (9/10)),
       (''swagger.json link'', has_swagger_json_link soup, fl (95/100)),
       (''openapi.json link'', has_openapi_json_link soup, fl (95/100)),
       (''swagger in title'',
          Some (case title_text soup of Some t \<Rightarrow> str_in ''swagger'' (lower t) | None \<Rightarrow> False),
          fl (7/10)),
       (''opblock class'', has_opblock_class soup, fl (8/10)),
       (''swagger-ui bundle'', Some (str_in ''swagger-ui-bundle'' content_lower), fl (8/10)),
       (''try it out button'', has_try_it_out soup, fl (6/10)),
       (''swagger text'', Some (str_in ''swagger ui'' content_lower), fl (5/10)),
       (''openapi text'', Some (str_in ''openapi'' content_lower), fl (4/10)),
       (''api documentation'', Some (str_in ''api documentation'' content_lower), fl (3/10)),
       (''api.html path'', Some (endswith clean_url ''/api.html''), fl (6/10)),
       (''api docs path'',
          Some (str_in ''/api'' (lower clean_url)
                \<and> (str_in ''doc'' (lower clean_url) \<or> str_in ''api.html'' (lower clean_url))),
          fl (5/10)),
       (''rest api indicators'',
          Some (list_ex (\<lambda>term. str_in term content_lower)
                  [''rest api'', ''api endpoint'', ''api reference'']),
          fl (4/10)),
       (''http methods'', Some (3 \<le> http_method_count soup), fl (5/10)),
       (''json response'',
          Some (str_in ''application/json'' content_lower
                \<or> str_in (CHR 0x22 # ''application/json'' @ [CHR 0x22]) content_lower),
          fl (3/10))])"

text \<open>The loop over the checks: a check that holds adds its name and, with the
  rounding \<open>fl\<close> of float addition, its weight.\<close>

fun run_checks ::
  "(real \<Rightarrow> real) \<Rightarrow> check list \<Rightarrow> string list \<times> real \<Rightarrow> string list \<times> real" where
  "run_checks fl [] acc = acc"
| "run_checks fl (c # cs) acc =
     run_checks fl cs
       (if fst (snd c) = Some True then (fst acc @ [fst c], fl (snd acc + snd (snd c))) else acc)"

definition add_unique :: "string list \<Rightarrow> string \<Rightarrow> string list" where
  "add_unique urls u = (if u \<notin> set urls then urls @ [u] else urls)"

definition base_patterns :: "string list" where
  "base_patterns = [''/swagger.json'', ''/openapi.json'', ''/api-docs'', ''/v1/swagger.json'',
                    ''/v2/api-docs'', ''/swagger/v1/swagger.json'']"

definition dir_path :: "string \<Rightarrow> string" where
  "dir_path path =
     (if \<not> endswith path ''/'' then join_with ''/'' (butlast (split_on (CHR ''/'') path))
      else rstrip_slash path)"

definition path_candidates :: "string \<Rightarrow> string \<Rightarrow> string list \<Rightarrow> string list" where
  "path_candidates base path urls =
     (if path \<noteq> [] then
        (let urls1 =
           (if endswith path ''/api.html''
            then add_unique urls (base @ str_replace path ''/api.html'' ''/swagger.json'')
            else if endswith path ''/docs'' \<or> endswith path ''/docs/''
            then add_unique urls (base @ str_replace (rstrip_slash path) ''/docs'' ''/swagger.json'')
            else if CHR ''/'' \<in> set path
            then add_unique urls (base @ dir_path path @ ''/swagger.json'')
            else urls)
         in if endswith path ''/api.html''
            then add_unique urls1 (base @ str_replace path ''/api.html'' ''/openapi.json'')
            else urls1)
      else urls)"

text \<open>The candidate URLs: the matches of the patterns joined to the URL of the page,
  then the host-root patterns, then the candidates made from the path. \<open>those\<close>
  gives \<open>None\<close> as soon as one \<open>urljoin\<close> raises.\<close>

definition candidate_urls :: "lib \<Rightarrow> soup_view \<Rightarrow> string \<Rightarrow> string \<Rightarrow> string list option" where
  "candidate_urls l soup url clean_url = do {
     full_urls \<leftarrow> those (map (urljoin l url) (spec_matches soup));
     parsed \<leftarrow> urlparse l clean_url;
     Some (let found = foldl add_unique [] full_urls;
               base = fst parsed @ ''://'' @ fst (snd parsed);
               with_base = foldl add_unique found (map (\<lambda>pattern. base @ pattern) base_patterns)
           in path_candidates base (snd (snd parsed)) with_base)
   }"

text \<open>The inputs on which the detector raises.\<close>

definition url_parsing_raises :: "lib \<Rightarrow> soup_view \<Rightarrow> string \<Rightarrow> bool" where
  "url_parsing_raises l soup url =
     (list_ex (\<lambda>m. urljoin l url m = None) (spec_matches soup)
      \<or> urlparse l (strip_fragment url) = None)"

text \<open>\<open>detect_swagger_page\<close>. \<open>fetch_text\<close> is the request for the page made when
  no HTML is passed in (\<open>None\<close> when it raises). The result \<open>None\<close> is the
  \<open>ValueError\<close> of \<open>urljoin\<close> or \<open>urlparse\<close>, which leaves the function.\<close>

text \<open>The indicators and the sum of the weights after the loop, and the dictionary
  made from them and the candidate URLs.\<close>

definition detection_of ::
  "lib \<Rightarrow> string list \<times> real \<Rightarrow> string list \<Rightarrow> detection" where
  "detection_of l scored urls =
     (let has_potential_specs = (0 < length urls);
          swagger = (nearest_float l (3/10) < snd scored \<or> has_potential_specs)
      in \<lparr>is_swagger = swagger,
          confidence = min (snd scored) 1,
          indicators = fst scored,
          spec_urls = urls,
          extraction_method =
            (if swagger then (if urls \<noteq> [] then ''openapi_spec'' else ''html_scraping'')
             else ''standard_scraping'')\<rparr>)"

definition page_score :: "lib \<Rightarrow> string \<Rightarrow> string \<Rightarrow> string list \<times> real" where
  "page_score l clean_url html_content =
     run_checks (nearest_float l)
       (checks (nearest_float l) (soup_of l html_content) clean_url html_content) ([], 0)"

definition detect_swagger_page ::
  "lib \<Rightarrow> (string \<Rightarrow> string option) \<Rightarrow> string \<Rightarrow> string option \<Rightarrow> detect_result option" where
  "detect_swagger_page l fetch_text url html_opt =
     (let clean_url = strip_fragment url in
      case (case html_opt of Some h \<Rightarrow> Some h | None \<Rightarrow> fetch_text clean_url) of
        None \<Rightarrow> Some DetectFailed
      | Some html_content \<Rightarrow>
          (let scored = page_score l clean_url html_content
           in case candidate_urls l (soup_of l html_content) url clean_url of
                None \<Rightarrow> None
              | Some urls \<Rightarrow> Some (Detected (detection_of l scored urls))))"

section \<open>HTML fallback and the extraction pipeline\<close>

text \<open>\<open>extract_examples_from_html\<close>: the matches of the example patterns are
  stripped of white space and quotes and kept when longer than 2; code blocks are
  stripped and kept when longer than 10 and free of the words that mark source code;
  JSON-like matches are kept when shorter than 200.\<close>

definition extract_examples_from_html :: "soup_view \<Rightarrow> html_examples" where
  "extract_examples_from_html soup =
     [(''parameter_examples'',
         filter (\<lambda>m. m \<noteq> [] \<and> 2 < length m)
           (map (\<lambda>m. strip_chars [CHR 0x22, CHR 0x27] (py_strip m)) (example_matches soup))),
      (''response_examples'',
         filter (\<lambda>m. length m < 200) (json_like_matches soup)),
      (''code_examples'',
         filter (\<lambda>t. t \<noteq> [] \<and> 10 < length t
                   \<and> \<not> list_ex (\<lambda>skip. str_in skip (lower t))
                         [''function'', ''class'', ''import'', ''def ''])
           (map py_strip (code_block_texts soup)))]"

text \<open>\<open>scrape_swagger_html\<close> for a page whose HTML is at hand. A block gives an
  endpoint only when both its method and its path are non-empty; a block whose
  handling raises is skipped.\<close>

definition text_or_empty :: "string option \<Rightarrow> string" where
  "text_or_empty t = (case t of Some s \<Rightarrow> py_strip s | None \<Rightarrow> '''')"

definition row_parameter :: "param_row \<Rightarrow> json list" where
  "row_parameter row =
     (case name_text row of
        Some n \<Rightarrow> [JObj [(''name'', JStr (py_strip n)),
                         (''description'', JStr (text_or_empty (desc_text row))),
                         (''required'', JBool (has_required row))]]
      | None \<Rightarrow> [])"

definition block_endpoint :: "block_view option \<Rightarrow> json list" where
  "block_endpoint b =
     (case b of
        None \<Rightarrow> []
      | Some block \<Rightarrow>
          (let method = (case method_text block of Some s \<Rightarrow> upper (py_strip s) | None \<Rightarrow> '''');
               path = text_or_empty (path_text block);
               description = text_or_empty (description_text block);
               parameters = concat (map row_parameter (param_rows block));
               examples = filter (\<lambda>t. t \<noteq> [] \<and> 5 < length t) (map py_strip (example_texts block))
           in if method \<noteq> [] \<and> path \<noteq> []
              then [JObj [(''method'', JStr method), (''path'', JStr path),
                          (''description'', JStr description),
                          (''parameters'', JArr parameters),
                          (''examples'', JArr (map JStr examples))]]
              else []))"

definition scrape_swagger_html :: "soup_view \<Rightarrow> json" where
  "scrape_swagger_html soup =
     (let endpoints = concat (map block_endpoint (endpoint_blocks soup))
      in JObj [(''api_info'', JObj [(''title'', JStr (text_or_empty (heading_text soup)))]),
               (''endpoints'', JArr endpoints),
               (''total_endpoints'', JNum (int (length endpoints))),
               (''extraction_method'', JStr ''html_scraping'')])"

text \<open>
  The results of \<open>enhanced_extract\<close>: the page is not a Swagger page; an extraction
  succeeded (\<open>is_swagger\<close> and \<open>success\<close> are true); or an exception was caught and the
  dictionary with \<open>success = False\<close> and the given \<open>is_swagger\<close> is returned. The
  whole body is inside \<open>try\<close> with \<open>except Exception\<close>, so the function returns one
  of the three on every input. \<open>is_swagger\<close> of the last one is false when the
  detector raised (there is no \<open>detection\<close> among the local variables then) or gave
  the dictionary without \<open>confidence\<close>, and true when a later step raised.
\<close>

record extraction =
  found_confidence :: real
  found_method :: string
  found_api_data :: json
  spec_source :: "string option"
  found_examples :: html_examples

datatype extract_result =
    NotSwagger real "string list"
  | Extracted extraction
  | ExtractFailed bool

text \<open>\<open>api_data['endpoints']\<close> is enriched in place; the model writes the enriched
  list back.\<close>

definition enrich_api_data :: "json \<Rightarrow> html_examples \<Rightarrow> json option" where
  "enrich_api_data api he = do {
     eps \<leftarrow> py_index api ''endpoints'';
     endpoints \<leftarrow> py_iter eps;
     endpoints' \<leftarrow> enhance_endpoints_with_html_examples endpoints he;
     py_setitem api ''endpoints'' (JArr endpoints')
   }"

text \<open>The two ways \<open>enhanced_extract\<close> ends for a page classified as Swagger:
  step 2, from a specification that was found, and step 3, the HTML fallback.\<close>

definition spec_extraction :: "detection \<Rightarrow> spec_result \<Rightarrow> html_examples \<Rightarrow> extract_result" where
  "spec_extraction d r he =
     (case Option.bind (parse_openapi_spec (spec r)) (\<lambda>api. enrich_api_data api he) of
        None \<Rightarrow> ExtractFailed True
      | Some api \<Rightarrow>
          Extracted \<lparr>found_confidence = confidence d,
                     found_method = ''openapi_spec'',
                     found_api_data = api,
                     spec_source = Some (source_url r),
                     found_examples = he\<rparr>)"

definition html_fallback :: "detection \<Rightarrow> soup_view \<Rightarrow> html_examples \<Rightarrow> extract_result" where
  "html_fallback d soup he =
     (case enrich_api_data (scrape_swagger_html soup) he of
        None \<Rightarrow> ExtractFailed True
      | Some api \<Rightarrow>
          Extracted \<lparr>found_confidence = confidence d,
                     found_method = ''html_scraping'',
                     found_api_data = api,
                     spec_source = None,
                     found_examples = he\<rparr>)"

definition enhanced_extract ::
  "lib \<Rightarrow> (string \<Rightarrow> string option) \<Rightarrow> (string \<Rightarrow> http_response) \<Rightarrow> (string \<Rightarrow> loads_result)
     \<Rightarrow> string \<Rightarrow> string option \<Rightarrow> extract_result" where
  "enhanced_extract l fetch_text fetch loads url html_opt =
     (case detect_swagger_page l fetch_text url html_opt of
        None \<Rightarrow> ExtractFailed False
      | Some DetectFailed \<Rightarrow> ExtractFailed False
      | Some (Detected d) \<Rightarrow>
          if \<not> is_swagger d then NotSwagger (confidence d) (indicators d)
          else
            (let html_content =
                   (case html_opt of
                      Some h \<Rightarrow> h
                    | None \<Rightarrow> (case fetch_text (strip_fragment url) of Some h \<Rightarrow> h | None \<Rightarrow> ''''));
                 soup = soup_of l html_content;
                 he = (if html_content \<noteq> [] then extract_examples_from_html soup else [])
             in case (if spec_urls d \<noteq> [] then extract_openapi_spec fetch loads (spec_urls d)
                      else None) of
                  Some r \<Rightarrow> spec_extraction d r he
                | None \<Rightarrow> html_fallback d soup he))"

text \<open>
  A plain prose page for the examples below: the page
  \<open>https://example.com/guide\<close> with a paragraph of text. None of the searches finds
  anything, \<open>urlparse\<close> splits the URL into \<open>https\<close>, \<open>example.com\<close> and
  \<open>/guide\<close>, \<open>urljoin\<close> resolves a reference that is an absolute path against the
  host, and no candidate URL answers. The roundings of the examples are left out
  (\<open>nearest_float\<close> is the identity).
\<close>

definition plain_soup :: soup_view where
  "plain_soup =
     \<lparr>has_swagger_ui_div = Some False, has_swagger_ui_class = Some False,
      has_swagger_json_link = Some False, has_openapi_json_link = Some False,
      title_text = None, has_opblock_class = Some False, has_try_it_out = Some False,
      http_method_count = 0, spec_matches = [], heading_text = None, endpoint_blocks = [],
      example_matches = [], code_block_texts = [], json_like_matches = []\<rparr>"

definition plain_lib :: lib where
  "plain_lib =
     \<lparr>soup_of = (\<lambda>html. plain_soup),
      urlparse = (\<lambda>u. Some (''https'', ''example.com'', ''/guide'')),
      urljoin = (\<lambda>b r. Some (''https://example.com'' @ r)),
      nearest_float = (\<lambda>x. x)\<rparr>"

definition plain_url :: string where
  "plain_url = ''https://example.com/guide''"

definition plain_html :: string where
  "plain_html = ''<html><body><p>Welcome to the user guide.</p></body></html>''"

definition plain_candidates :: "string list" where
  "plain_candidates =
     [''https://example.com/swagger.json'', ''https://example.com/openapi.json'',
      ''https://example.com/api-docs'', ''https://example.com/v1/swagger.json'',
      ''https://example.com/v2/api-docs'', ''https://example.com/swagger/v1/swagger.json'']"

definition unreachable :: "string \<Rightarrow> http_response" where
  "unreachable u = Response 404 ''Not Found''"

definition no_json :: "string \<Rightarrow> loads_result" where
  "no_json text = JSONDecodeError"

text \<open>A host that serves the document \<open>{"openapi":"3.0.0","paths":{}}\<close> under
  \<open>/openapi.json\<close> and answers 404 elsewhere, with the strict parser's answer for that
  text.\<close>

definition quoted :: "string \<Rightarrow> string" where
  "quoted s = CHR 0x22 # s @ [CHR 0x22]"

definition openapi_text :: string where
  "openapi_text = ''{'' @ quoted ''openapi'' @ '':'' @ quoted ''3.0.0'' @ '','' @ quoted ''paths'' @ '':{}}''"

definition openapi_doc :: json where
  "openapi_doc = JObj [(''openapi'', JStr ''3.0.0''), (''paths'', JObj [])]"

definition spec_server :: "string \<Rightarrow> http_response" where
  "spec_server u =
     (if u = ''https://example.com/openapi.json'' then Response 200 openapi_text
      else Response 404 ''Not Found'')"

definition spec_loads :: "string \<Rightarrow> loads_result" where
  "spec_loads text = (if text = openapi_text then Loaded openapi_doc else JSONDecodeError)"






text \<open>
  A URL whose host opens a bracket that is never closed: \<open>urlparse\<close> raises
  \<open>ValueError\<close> on it.
\<close>

definition bracket_url :: string where
  "bracket_url = ''http://[::1/guide''"

definition strict_lib :: lib where
  "strict_lib =
     plain_lib\<lparr>urlparse := (\<lambda>u. if u = bracket_url then None
                                  else Some (''https'', ''example.com'', ''/guide''))\<rparr>"

text \<open>
  A host whose first candidate answers 200 with the JSON string \<open>"my paths"\<close> and
  whose second candidate serves the document above, with the strict parser's answers
  for the two texts.
\<close>

definition note_text :: string where
  "note_text = quoted ''my paths''"

definition note_server :: "string \<Rightarrow> http_response" where
  "note_server u =
     (if u = ''https://example.com/swagger.json'' then Response 200 note_text
      else if u = ''https://example.com/openapi.json'' then Response 200 openapi_text
      else Response 404 ''Not Found'')"

definition note_loads :: "string \<Rightarrow> loads_result" where
  "note_loads text =
     (if text = note_text then Loaded (JStr ''my paths'')
      else if text = openapi_text then Loaded openapi_doc
      else JSONDecodeError)"
section \<open>Processing one URL\<close>

text \<open>
  The exception classes that the handlers of \<open>process_single_url\<close> tell apart:
  \<open>asyncio.TimeoutError\<close>, \<open>aiohttp.ClientError\<close>, its subclass
  \<open>aiohttp.ClientResponseError\<close>, and any other \<open>Exception\<close>. An exception is a
  class with the text of \<open>str(e)\<close>. \<open>isinstance\<close> is what an \<open>except\<close> clause
  tests.
\<close>

datatype exn_class = TimeoutError | ClientError | ClientResponseError | OtherException

type_synonym exn = "exn_class \<times> string"

fun isinstance :: "exn_class \<Rightarrow> exn_class \<Rightarrow> bool" where
  "isinstance ClientResponseError ClientError = True"
| "isinstance c OtherException = True"
| "isinstance c c' = (c = c')"

text \<open>
  The environment of a run. Every request to a service is answered by an oracle that
  is asked with the number of earlier requests of the same kind:
  \<open>jina_http_of\<close> is \<open>session.get(jina_url)\<close> for a URL, with the reading of the
  body; \<open>page_lib\<close>, \<open>spec_http\<close> and \<open>json_loads\<close> are the libraries, the requests
  for candidate specifications and the strict JSON parser that \<open>enhanced_extract\<close>
  works with; \<open>invoke_model\<close> is one pass through the \<open>try\<close> block of
  \<open>process_with_bedrock\<close> for a content and its source URL: the call of the Bedrock
  client and the reading of its answer, which give a text or raise (the settings read
  from the process environment at the head of the block are taken to be numbers, as
  their defaults are).
  \<open>response_error_text\<close> is \<open>str(e)\<close> of the \<open>ClientResponseError\<close> built for a
  status other than 200, \<open>format_swagger\<close> is \<open>format_swagger_content_for_llm\<close>
  (which catches what it raises), and \<open>now_iso\<close> is \<open>datetime.now().isoformat()\<close>.
\<close>

datatype jina_http = HttpResponse nat string | HttpRaises exn_class string

datatype invoke_outcome = InvokeOk string | InvokeRaises string

record env =
  jina_http_of :: "nat \<Rightarrow> string \<Rightarrow> jina_http"
  page_lib :: lib
  spec_http :: "nat \<Rightarrow> string \<Rightarrow> http_response"
  json_loads :: "string \<Rightarrow> loads_result"
  bedrock_client :: bool
  invoke_model :: "nat \<Rightarrow> string \<Rightarrow> string \<Rightarrow> invoke_outcome"
  response_error_text :: "nat \<Rightarrow> string \<Rightarrow> string"
  format_swagger :: "extract_result \<Rightarrow> string \<Rightarrow> string \<Rightarrow> string"
  now_iso :: string

text \<open>
  The state of a run over one base URL: its statistics, the number of requests made so
  far (to the content-extraction service, to \<open>enhanced_extract\<close>, to
  \<open>process_with_bedrock\<close> and to the Bedrock client) and the pauses taken with
  \<open>asyncio.sleep\<close>. \<open>process_single_url\<close> reads \<open>self.processing_stats[base_url]\<close>,
  which \<open>scrape_and_process\<close> creates for every base URL before any URL is processed.
\<close>

record world =
  stats :: ProcessingStats
  jina_calls :: nat
  swagger_calls :: nat
  bedrock_calls :: nat
  invoke_calls :: nat
  slept :: "real list"

definition sleep :: "real \<Rightarrow> world \<Rightarrow> world" where
  "sleep seconds w = w\<lparr>slept := slept w @ [seconds]\<rparr>"

definition record_failure :: "env \<Rightarrow> string \<Rightarrow> FailureReason \<Rightarrow> string \<Rightarrow> world \<Rightarrow> world" where
  "record_failure e url r msg w = w\<lparr>stats := add_failure (stats w) url r msg (now_iso e)\<rparr>"

text \<open>
  \<open>extract_content_via_jina\<close>. A status other than 200 raises
  \<open>ClientResponseError\<close> inside the \<open>try\<close>; the clauses are tried in the order
  \<open>TimeoutError\<close>, \<open>ClientError\<close>, \<open>Exception\<close>, and each raises a new exception of
  its class with a longer text.
\<close>

definition extract_content_via_jina :: "env \<Rightarrow> string \<Rightarrow> jina_http \<Rightarrow> exn + string" where
  "extract_content_via_jina e url answer =
     (case (case answer of
              HttpResponse status content \<Rightarrow>
                (if status = 200 then Inr content
                 else Inl (ClientResponseError, response_error_text e status url))
            | HttpRaises c msg \<Rightarrow> Inl (c, msg)) of
        Inr content \<Rightarrow> Inr content
      | Inl raised \<Rightarrow>
          (if isinstance (fst raised) TimeoutError
           then Inl (TimeoutError,
                     ''Timeout error extracting content via Jina for '' @ url @ '': '' @ snd raised)
           else if isinstance (fst raised) ClientError
           then Inl (ClientError,
                     ''Connection error extracting content via Jina for '' @ url @ '': '' @ snd raised)
           else Inl (OtherException,
                     ''Unexpected error extracting content via Jina for '' @ url @ '': '' @ snd raised)))"

text \<open>
  \<open>extract_content_via_jina_rate_limited\<close> waits for admission by the rate limiter
  (modelled in its own section; the wait changes neither the answer nor the
  statistics), makes the request and re-raises whatever it raises.
\<close>

definition extract_content_via_jina_rate_limited :: "env \<Rightarrow> string \<Rightarrow> world \<Rightarrow> (exn + string) \<times> world" where
  "extract_content_via_jina_rate_limited e url w =
     (extract_content_via_jina e url (jina_http_of e (jina_calls w) url),
      w\<lparr>jina_calls := jina_calls w + 1\<rparr>)"

text \<open>The handlers of step 1 in their order, and the reason recorded by the first
  one that matches; \<open>except Exception\<close> is last.\<close>

definition fetch_handlers :: "(exn_class \<times> FailureReason) list" where
  "fetch_handlers =
     [(TimeoutError, TIMEOUT_ERROR), (ClientError, CONNECTION_ERROR),
      (ClientResponseError, HTTP_ERROR), (OtherException, CONTENT_EXTRACTION_ERROR)]"

definition fetch_failure_reason :: "exn_class \<Rightarrow> FailureReason" where
  "fetch_failure_reason c =
     (case find (\<lambda>h. isinstance c (fst h)) fetch_handlers of
        Some h \<Rightarrow> snd h
      | None \<Rightarrow> CONTENT_EXTRACTION_ERROR)"

text \<open>\<open>process_with_bedrock\<close>: up to \<open>max_retries = 3\<close> calls of the client, with a
  pause that depends on the text of the error and on the attempt.\<close>

definition bedrock_max_retries :: nat where
  "bedrock_max_retries = 3"

definition pool_keywords :: "string list" where
  "pool_keywords = [''connection pool'', ''pool is full'', ''connection limit'',
                    ''too many connections'', ''connection timeout'', ''connection refused'']"

definition throttle_keywords :: "string list" where
  "throttle_keywords = [''throttling'', ''rate limit'', ''too many requests'', ''service unavailable'']"

definition bedrock_delay :: "string \<Rightarrow> nat \<Rightarrow> real" where
  "bedrock_delay msg attempt =
     (let error_str = lower msg in
      if list_ex (\<lambda>keyword. str_in keyword error_str) pool_keywords
      then 1 * 2 ^ attempt + (1/10) * real attempt
      else if list_ex (\<lambda>keyword. str_in keyword error_str) throttle_keywords
      then 1 * 3 ^ attempt + (1/2) * real attempt
      else 1 * (3/2) ^ attempt)"

fun bedrock_attempts ::
  "env \<Rightarrow> string \<Rightarrow> string \<Rightarrow> nat list \<Rightarrow> world \<Rightarrow> string option \<times> world" where
  "bedrock_attempts e content url [] w = (None, w)"
| "bedrock_attempts e content url (attempt # rest) w =
     (let w1 = w\<lparr>invoke_calls := invoke_calls w + 1\<rparr> in
      case invoke_model e (invoke_calls w) content url of
        InvokeOk processed_content \<Rightarrow> (Some processed_content, w1)
      | InvokeRaises msg \<Rightarrow>
          if attempt < bedrock_max_retries - 1
          then bedrock_attempts e content url rest (sleep (bedrock_delay msg attempt) w1)
          else (None, w1))"

definition process_with_bedrock ::
  "env \<Rightarrow> string \<Rightarrow> string \<Rightarrow> world \<Rightarrow> string option \<times> world" where
  "process_with_bedrock e markdown_content url w =
     (let w1 = w\<lparr>bedrock_calls := bedrock_calls w + 1\<rparr> in
      if \<not> bedrock_client e then (None, w1)
      else bedrock_attempts e markdown_content url [0..<bedrock_max_retries] w1)"

text \<open>\<open>process_with_bedrock_rate_limited\<close> holds a permit of the semaphore around
  the call.\<close>

definition process_with_bedrock_rate_limited ::
  "env \<Rightarrow> string \<Rightarrow> string \<Rightarrow> world \<Rightarrow> string option \<times> world" where
  "process_with_bedrock_rate_limited e markdown_content url w =
     process_with_bedrock e markdown_content url w"

text \<open>
  Step 2 of \<open>process_single_url\<close>: \<open>enhanced_extract\<close> is called with the fetched
  content as the HTML (the scraper has no session and, with the HTML given, fetches
  only candidate specifications). A result with \<open>is_swagger\<close> and \<open>success\<close> is
  counted and, when it has endpoints, replaces the content by the enhanced content.
  The step is wrapped in \<open>try\<close> with a handler that records the failure
  \<open>SWAGGER_DETECTION_ERROR\<close> for the URL and lets processing go on. Nothing in the
  block raises: \<open>enhanced_extract\<close> catches every exception and returns a dictionary
  that has the keys read here, the statistics of the base URL exist, and
  \<open>format_swagger_content_for_llm\<close> has a handler of its own. So the handler has no
  case in the model.
\<close>

definition endpoints_count_of :: "json \<Rightarrow> nat" where
  "endpoints_count_of api =
     (case py_get api ''total_endpoints'' (JNum 0) of Some (JNum n) \<Rightarrow> nat n | _ \<Rightarrow> 0)"

definition swagger_stage ::
  "env \<Rightarrow> string \<Rightarrow> string \<Rightarrow> world \<Rightarrow> string \<times> extract_result \<times> world" where
  "swagger_stage e url markdown_content w =
     (let w1 = w\<lparr>swagger_calls := swagger_calls w + 1\<rparr>;
          swagger_result =
            enhanced_extract (page_lib e) (\<lambda>u. None) (spec_http e (swagger_calls w)) (json_loads e)
              url (Some markdown_content)
      in case swagger_result of
           Extracted x \<Rightarrow>
             (let endpoints_count = endpoints_count_of (found_api_data x);
                  w2 = w1\<lparr>stats := add_swagger_detection (stats w1) url (found_method x)
                                      endpoints_count\<rparr>
              in (if 0 < endpoints_count
                  then format_swagger e swagger_result markdown_content url
                  else markdown_content,
                  swagger_result, w2))
         | _ \<Rightarrow> (markdown_content, swagger_result, w1))"

text \<open>The result dictionary of a processed URL.\<close>

record swagger_info =
  info_confidence :: real
  info_method :: string
  info_endpoints :: nat

record url_result =
  original_url :: string
  raw_markdown :: string
  processed_content :: string
  result_timestamp :: string
  result_swagger_info :: "swagger_info option"

definition swagger_info_of :: "extract_result \<Rightarrow> swagger_info option" where
  "swagger_info_of swagger_result =
     (case swagger_result of
        Extracted x \<Rightarrow>
          Some \<lparr>info_confidence = found_confidence x, info_method = found_method x,
                info_endpoints = endpoints_count_of (found_api_data x)\<rparr>
      | ExtractFailed True \<Rightarrow>
          Some \<lparr>info_confidence = 0, info_method = ''unknown'', info_endpoints = 0\<rparr>
      | _ \<Rightarrow> None)"

text \<open>
  \<open>process_single_url\<close>: the loop \<open>for attempt in range(max_retries + 1)\<close> with
  \<open>max_retries = 2\<close>. An attempt that fails in step 1 or in step 3 either pauses two
  seconds and starts the next attempt from step 1, or, on the last attempt, records the
  failure and returns \<open>None\<close>. No step of the model raises past its own handler, so
  the outer \<open>except Exception\<close> of the loop body has no case here.
\<close>

definition max_retries :: nat where
  "max_retries = 2"

fun url_attempts :: "env \<Rightarrow> string \<Rightarrow> nat list \<Rightarrow> world \<Rightarrow> url_result option \<times> world" where
  "url_attempts e url [] w = (None, w)"
| "url_attempts e url (attempt # rest) w =
     (case extract_content_via_jina_rate_limited e url w of
        (Inl raised, w1) \<Rightarrow>
          if attempt < max_retries then url_attempts e url rest (sleep 2 w1)
          else (None, record_failure e url (fetch_failure_reason (fst raised)) (snd raised) w1)
      | (Inr markdown_content, w1) \<Rightarrow>
          if markdown_content = [] then
            (if attempt < max_retries then url_attempts e url rest (sleep 2 w1)
             else (None, record_failure e url CONTENT_EXTRACTION_ERROR
                           ''Failed to extract content via Jina API after all retries'' w1))
          else
            (case swagger_stage e url markdown_content w1 of
               (content, swagger_result, w2) \<Rightarrow>
                 (case process_with_bedrock_rate_limited e content url w2 of
                    (processed, w3) \<Rightarrow>
                      if processed = None \<or> processed = Some [] then
                        (if attempt < max_retries then url_attempts e url rest (sleep 2 w3)
                         else (None, record_failure e url BEDROCK_ERROR
                                       ''Failed to process content with Bedrock after all retries'' w3))
                      else
                        (Some \<lparr>original_url = url, raw_markdown = content,
                               processed_content = (case processed of Some p \<Rightarrow> p | None \<Rightarrow> []),
                               result_timestamp = now_iso e,
                               result_swagger_info = swagger_info_of swagger_result\<rparr>,
                         w3))))"

definition process_single_url :: "env \<Rightarrow> string \<Rightarrow> world \<Rightarrow> url_result option \<times> world" where
  "process_single_url e url w = url_attempts e url [0..<max_retries + 1] w"

text \<open>
  The result loop of \<open>scrape_and_process\<close>, for the URLs crawled from one base URL
  (one \<open>ProcessingStats\<close> instance). \<open>all_crawled_urls\<close> is the list from which the
  tasks are made, one task per URL in list order; \<open>asyncio.as_completed\<close> hands the
  tasks over in the order in which they complete, and \<open>completion\<close> is the list of
  their URLs in that order, a rearrangement of \<open>all_crawled_urls\<close>. The loop counts
  the tasks as they arrive and books the result of the \<open>i\<close>-th arrival under
  \<open>all_crawled_urls[i]\<close>: a result as a success, \<open>None\<close> as a failure. The tasks run
  interleaved; the model runs each task in one piece when it completes, which keeps the
  order of the statistics updates of a run in which every task records its own failure
  just before it completes.
\<close>

definition record_result :: "env \<Rightarrow> string \<Rightarrow> url_result option \<Rightarrow> world \<Rightarrow> world" where
  "record_result e url result w =
     (case result of
        Some r \<Rightarrow> w\<lparr>stats := add_success (stats w) url\<rparr>
      | None \<Rightarrow> record_failure e url PROCESSING_ERROR ''Processing returned None result'' w)"

fun result_loop :: "env \<Rightarrow> (string \<times> string) list \<Rightarrow> world \<Rightarrow> world" where
  "result_loop e [] w = w"
| "result_loop e (pair # rest) w =
     (case process_single_url e (snd pair) w of
        (result, w1) \<Rightarrow> result_loop e rest (record_result e (fst pair) result w1))"

definition scrape_and_process :: "env \<Rightarrow> string list \<Rightarrow> string list \<Rightarrow> world \<Rightarrow> world" where
  "scrape_and_process e all_crawled_urls completion w =
     result_loop e (zip all_crawled_urls completion) w"

definition new_world :: "string \<Rightarrow> real \<Rightarrow> world" where
  "new_world b now =
     \<lparr>stats = new_stats b now, jina_calls = 0, swagger_calls = 0, bedrock_calls = 0,
      invoke_calls = 0, slept = []\<rparr>"

text \<open>
  Words for the claims about retries. The \<open>n\<close>-th request to the content-extraction
  service fails when \<open>extract_content_via_jina\<close> raises on its answer or returns an
  empty content; \<open>fetch_failure\<close> is the reason and the message that
  \<open>process_single_url\<close> records when that happens on the last attempt.
\<close>

definition fetch_fails :: "env \<Rightarrow> string \<Rightarrow> nat \<Rightarrow> bool" where
  "fetch_fails e url n =
     (case extract_content_via_jina e url (jina_http_of e n url) of
        Inl raised \<Rightarrow> True
      | Inr content \<Rightarrow> content = [])"

definition fetch_failure :: "env \<Rightarrow> string \<Rightarrow> nat \<Rightarrow> FailureReason \<times> string" where
  "fetch_failure e url n =
     (case extract_content_via_jina e url (jina_http_of e n url) of
        Inl raised \<Rightarrow> (fetch_failure_reason (fst raised), snd raised)
      | Inr content \<Rightarrow>
          (CONTENT_EXTRACTION_ERROR, ''Failed to extract content via Jina API after all retries''))"

text \<open>
  The transformation fails on an attempt when \<open>process_with_bedrock\<close> gives nothing
  or an empty text: there is no client, or the pass through the \<open>try\<close> block raises or
  gives an empty text.
\<close>

definition invoke_fails :: "invoke_outcome \<Rightarrow> bool" where
  "invoke_fails outcome = (case outcome of InvokeOk processed \<Rightarrow> processed = [] | InvokeRaises msg \<Rightarrow> True)"

definition transform_fails :: "env \<Rightarrow> string \<Rightarrow> bool" where
  "transform_fails e url =
     (\<not> bedrock_client e \<or> (\<forall>n content. invoke_fails (invoke_model e n content url)))"

text \<open>
  Environments for the examples. In all of them the content-extraction service
  answers with the plain page of the section on extraction, no candidate specification
  is reachable, and the Bedrock client answers every call. Then: the
  content-extraction service times out on every request; the Bedrock client raises on
  every call; the client answers with an empty text; there is no client; and the
  client raises on every call for one URL, \<open>slow_url\<close>, and answers for the others.
\<close>

definition env_ok :: env where
  "env_ok =
     \<lparr>jina_http_of = (\<lambda>n url. HttpResponse 200 plain_html),
      page_lib = plain_lib,
      spec_http = (\<lambda>n. unreachable),
      json_loads = no_json,
      bedrock_client = True,
      invoke_model = (\<lambda>n content url. InvokeOk ''## Guide''),
      response_error_text = (\<lambda>status url. ''HTTP error''),
      format_swagger = (\<lambda>r content url. content),
      now_iso = ''2025-01-01T00:00:00''\<rparr>"

definition env_timeouts :: env where
  "env_timeouts = env_ok\<lparr>jina_http_of := (\<lambda>n url. HttpRaises TimeoutError ''timed out'')\<rparr>"

definition env_bedrock_down :: env where
  "env_bedrock_down = env_ok\<lparr>invoke_model := (\<lambda>n content url. InvokeRaises ''connection refused'')\<rparr>"

definition env_empty_answers :: env where
  "env_empty_answers = env_ok\<lparr>invoke_model := (\<lambda>n content url. InvokeOk [])\<rparr>"

definition env_no_client :: env where
  "env_no_client = env_ok\<lparr>bedrock_client := False\<rparr>"

definition guide_url :: string where
  "guide_url = ''https://example.com/guide''"

definition slow_url :: string where
  "slow_url = ''https://example.com/slow''"

definition env_one_down :: env where
  "env_one_down =
     env_ok\<lparr>invoke_model := (\<lambda>n content url. if url = slow_url then InvokeRaises ''connection refused''
                                              else InvokeOk ''## Guide'')\<rparr>"
section \<open>The rate limiter\<close>

text \<open>
  \<open>self.jina_rate_limiter\<close> is the list of the times at which requests were
  recorded; times are readings of \<open>time.time()\<close>, taken as real numbers of seconds.
  \<open>extract_content_via_jina_rate_limited\<close> holds a permit of \<open>Semaphore(20)\<close> from
  its first line to the end of the request. The code before the request has one point
  where the coroutine is suspended, \<open>await asyncio.sleep(sleep_time)\<close>, so it runs in
  two steps: from the entry to the sleep or to the recording of the request, and from
  the end of the sleep to the recording. Other coroutines run during the sleep.
\<close>

definition prune :: "real \<Rightarrow> real list \<Rightarrow> real list" where
  "prune current_time limiter = filter (\<lambda>t. current_time - t < 60) limiter"

datatype admission = Admitted "real list" | Sleeping real "real list"

text \<open>The first step: \<open>Admitted\<close> with the list after the request was recorded, or
  \<open>Sleeping\<close> with the time to sleep and the pruned list. \<open>hd\<close> reads the element 0
  of a list that has at least 20.\<close>

definition rate_limit_enter :: "real \<Rightarrow> real list \<Rightarrow> admission" where
  "rate_limit_enter current_time limiter =
     (let pruned = prune current_time limiter in
      if 20 \<le> length pruned then
        (let sleep_time = 60 - (current_time - hd pruned) in
         if 0 < sleep_time then Sleeping sleep_time pruned
         else Admitted (pruned @ [current_time]))
      else Admitted (pruned @ [current_time]))"

text \<open>The second step, on the list as it is when the sleep ends: prune once more and
  record the request. The length is not tested again.\<close>

definition rate_limit_resume :: "real \<Rightarrow> real list \<Rightarrow> real list" where
  "rate_limit_resume current_time limiter = prune current_time limiter @ [current_time]"

text \<open>A call during which no other coroutine runs: \<open>after_sleep\<close> is the reading of
  the clock when the sleep, if any, has ended.\<close>

definition rate_limit_admit :: "real \<Rightarrow> real \<Rightarrow> real list \<Rightarrow> real list" where
  "rate_limit_admit current_time after_sleep limiter =
     (case rate_limit_enter current_time limiter of
        Admitted l \<Rightarrow> l
      | Sleeping sleep_time l \<Rightarrow> rate_limit_resume after_sleep l)"

text \<open>
  Coroutines interleaved by the event loop. \<open>Enter t\<close>: a coroutine takes a permit
  and runs the first step at time \<open>t\<close>. \<open>Resume t\<close>: the coroutine that has slept
  longest runs the second step at time \<open>t\<close>, not before its sleep is over.
  \<open>Leave t\<close>: the request of an admitted call ends and its permit is returned. The
  state holds the clock, the shared list, the wake-up times of the sleeping coroutines,
  the number of requests in flight and, for the statement of the claim, the log of all
  recorded requests. An event that cannot happen (the clock running backwards, no
  permit left, nobody to resume or to leave) gives \<open>None\<close>.
\<close>

datatype event = Enter real | Resume real | Leave real

record limiter_state =
  clock :: real
  shared :: "real list"
  sleepers :: "real list"
  in_flight :: nat
  admitted :: "real list"

definition permits :: nat where
  "permits = 20"

fun step :: "event \<Rightarrow> limiter_state \<Rightarrow> limiter_state option" where
  "step (Enter t) s =
     (if t < clock s \<or> permits \<le> in_flight s + length (sleepers s) then None
      else (case rate_limit_enter t (shared s) of
              Admitted l \<Rightarrow>
                Some (s\<lparr>clock := t, shared := l, in_flight := in_flight s + 1,
                        admitted := admitted s @ [t]\<rparr>)
            | Sleeping sleep_time l \<Rightarrow>
                Some (s\<lparr>clock := t, shared := l, sleepers := sleepers s @ [t + sleep_time]\<rparr>)))"
| "step (Resume t) s =
     (case sleepers s of
        [] \<Rightarrow> None
      | wake # rest \<Rightarrow>
          if t < clock s \<or> t < wake then None
          else Some (s\<lparr>clock := t, shared := rate_limit_resume t (shared s), sleepers := rest,
                         in_flight := in_flight s + 1, admitted := admitted s @ [t]\<rparr>))"
| "step (Leave t) s =
     (if t < clock s \<or> in_flight s = 0 then None
      else Some (s\<lparr>clock := t, in_flight := in_flight s - 1\<rparr>))"

fun run_events :: "event list \<Rightarrow> limiter_state \<Rightarrow> limiter_state option" where
  "run_events [] s = Some s"
| "run_events (ev # evs) s = (case step ev s of None \<Rightarrow> None | Some s' \<Rightarrow> run_events evs s')"

definition idle :: limiter_state where
  "idle = \<lparr>clock = 0, shared = [], sleepers = [], in_flight = 0, admitted = []\<rparr>"

text \<open>The number of recorded requests in the 60 seconds that end at \<open>t\<close>.\<close>

definition calls_in_window :: "real list \<Rightarrow> real \<Rightarrow> nat" where
  "calls_in_window recorded t = length (filter (\<lambda>x. t - x < 60 \<and> x \<le> t) recorded)"

text \<open>
  An arrival pattern: one call at time 0, whose request ends at 1; nineteen calls at
  time 30, the requests of two of which end at 31; two more calls at time 31, which find
  twenty recorded requests and sleep until 60; both wake at 60.
\<close>

definition burst :: "event list" where
  "burst = [Enter 0, Leave 1] @ replicate 19 (Enter 30) @ [Leave 31, Leave 31]
           @ [Enter 31, Enter 31, Resume 60, Resume 60]"

section \<open>Properties of ProcessingStats\<close>

lemma dict_set_keys: "set (dict_keys (dict_set d k v)) = insert k (set (dict_keys d))"
  by (induction d) (auto simp: dict_keys_def)

lemma dict_get_dict_set: "dict_get (dict_set d k v) k' = (if k' = k then Some v else dict_get d k')"
  by (induction d) (auto simp: dict_get_def)

lemma add_success_urls:
  "successful_urls (add_success s u) =
     (if u \<in> set (successful_urls s) then successful_urls s else successful_urls s @ [u])"
  by (simp add: add_success_def)

lemma add_success_distinct:
  "distinct (successful_urls s) \<Longrightarrow> distinct (successful_urls (add_success s u))"
  by (simp add: add_success_urls)

lemma foldl_add_success_set:
  "set (successful_urls (foldl add_success s us)) = set (successful_urls s) \<union> set us"
  by (induction us arbitrary: s) (auto simp: add_success_urls)

lemma foldl_add_success_distinct:
  "distinct (successful_urls s) \<Longrightarrow> distinct (successful_urls (foldl add_success s us))"
  by (induction us arbitrary: s) (simp_all add: add_success_distinct)

text \<open>
  Claim C10. Recording a success for a URL that is already in the success list leaves
  the ProcessingStats instance unchanged, so \<open>add_success\<close> is idempotent; and after
  any sequence of \<open>add_success\<close> calls on a fresh instance, \<open>success_count\<close> is the
  number of distinct URLs that were recorded.
\<close>

theorem add_success_idempotent:
  "(u \<in> set (successful_urls s) \<longrightarrow> add_success s u = s)
   \<and> add_success (add_success s u) u = add_success s u
   \<and> success_count (foldl add_success (new_stats b t0) us) = card (set us)"
proof -
  have a: "u \<in> set (successful_urls s) \<longrightarrow> add_success s u = s"
    by (simp add: add_success_def)
  have b: "add_success (add_success s u) u = add_success s u"
    by (simp add: add_success_def)
  have d: "distinct (successful_urls (foldl add_success (new_stats b t0) us))"
    by (rule foldl_add_success_distinct) (simp add: new_stats_def)
  have "set (successful_urls (foldl add_success (new_stats b t0) us)) = set us"
    by (simp add: foldl_add_success_set new_stats_def)
  with d have c: "success_count (foldl add_success (new_stats b t0) us) = card (set us)"
    by (metis distinct_card success_count_def)
  from a b c show ?thesis by blast
qed

theorem add_success_idempotent_witness:
  "''https://a.example/docs'' \<in> set (successful_urls (add_success (new_stats ''https://a.example'' 0) ''https://a.example/docs''))
   \<and> add_success (add_success (new_stats ''https://a.example'' 0) ''https://a.example/docs'') ''https://a.example/docs''
       = add_success (new_stats ''https://a.example'' 0) ''https://a.example/docs''
   \<and> success_count (foldl add_success (new_stats ''https://a.example'' 0)
         [''https://a.example/docs'', ''https://a.example/x'', ''https://a.example/docs'']) = 2"
proof -
  have m: "''https://a.example/docs'' \<in> set (successful_urls (add_success (new_stats ''https://a.example'' 0) ''https://a.example/docs''))"
    by (simp add: add_success_def new_stats_def)
  have c: "card (set [''https://a.example/docs'', ''https://a.example/x'', ''https://a.example/docs'']) = 2"
    by code_simp
  from m c show ?thesis
    using add_success_idempotent
      [of "''https://a.example/docs''" "add_success (new_stats ''https://a.example'' 0) ''https://a.example/docs''"
          "''https://a.example''" 0
          "[''https://a.example/docs'', ''https://a.example/x'', ''https://a.example/docs'']"]
    by simp
qed
section \<open>Properties of example enrichment\<close>

lemma map_of_dict_set:
  "map_of (dict_set kvs k v) k' = (if k' = k then Some v else map_of kvs k')"
  by (induction kvs) auto

lemma for_each_append_ok:
  "map_of kvs ''examples'' = Some (JArr xs) \<Longrightarrow>
   \<exists>kvs'. for_each append_example new (JObj kvs) = Some (JObj kvs')
        \<and> map_of kvs' ''examples'' = Some (JArr (xs @ new))"
proof (induction new arbitrary: kvs xs)
  case Nil
  then show ?case by simp
next
  case (Cons x new)
  have step: "append_example x (JObj kvs) = Some (JObj (dict_set kvs ''examples'' (JArr (xs @ [x]))))"
    using Cons.prems by (simp add: append_example_def)
  have "map_of (dict_set kvs ''examples'' (JArr (xs @ [x]))) ''examples'' = Some (JArr (xs @ [x]))"
    by (simp add: map_of_dict_set)
  from Cons.IH [OF this] step show ?case by simp
qed

lemma for_each_append_Some:
  assumes "for_each append_example new (JObj kvs) = Some e'" "new \<noteq> []"
    and "map_of kvs ''examples'' = Some v"
  shows "\<exists>xs. v = JArr xs"
proof (cases new)
  case Nil
  with assms show ?thesis by simp
next
  case (Cons x rest)
  with assms(1) have "append_example x (JObj kvs) \<noteq> None"
    by (auto split: option.splits)
  with assms(3) show ?thesis
    by (cases v) (auto simp: append_example_def)
qed

lemma those_map_Some:
  "those (map f xs) = Some ys \<Longrightarrow>
   length ys = length xs \<and> (\<forall>i < length xs. f (xs ! i) = Some (ys ! i))"
proof (induction xs arbitrary: ys)
  case Nil
  then show ?case by simp
next
  case (Cons x xs)
  from Cons.prems obtain y ys' where y: "f x = Some y" and ys': "those (map f xs) = Some ys'"
    and ys: "ys = y # ys'"
    by (auto split: option.splits)
  from Cons.IH [OF ys'] y ys show ?case
    by (auto simp: nth_Cons split: nat.splits)
qed

lemma set_and_append_Some:
  assumes "set_and_append new (JObj kvs) = Some e'" "new \<noteq> []"
  shows "\<exists>kvs'. e' = JObj kvs'
           \<and> map_of kvs' ''examples'' = Some (JArr (examples_of (JObj kvs) @ new))
           \<and> (map_of kvs ''examples'' = None \<or> (\<exists>xs. map_of kvs ''examples'' = Some (JArr xs)))"
proof -
  define cur where "cur = (case map_of kvs ''examples'' of Some v \<Rightarrow> v | None \<Rightarrow> JArr [])"
  define kvs1 where "kvs1 = dict_set kvs ''examples'' cur"
  have run: "for_each append_example new (JObj kvs1) = Some e'"
    using assms(1) by (simp add: set_and_append_def cur_def kvs1_def)
  have m1: "map_of kvs1 ''examples'' = Some cur"
    by (simp add: kvs1_def map_of_dict_set)
  from for_each_append_Some [OF run assms(2) m1] obtain xs where xs: "cur = JArr xs"
    by blast
  have ex: "examples_of (JObj kvs) = xs"
    using xs by (auto simp: examples_of_def cur_def split: option.splits)
  have shape: "map_of kvs ''examples'' = None \<or> (\<exists>xs. map_of kvs ''examples'' = Some (JArr xs))"
    using xs by (auto simp: cur_def split: option.splits)
  from for_each_append_ok [of kvs1 xs new] m1 xs run ex shape show ?thesis
    by auto
qed

lemma add_parameter_examples_shape:
  assumes "add_parameter_examples he ep = Some e1"
  shows "\<exists>kvs kvs1. ep = JObj kvs \<and> e1 = JObj kvs1
           \<and> map_of kvs1 ''examples'' = map_of kvs ''examples''"
proof -
  from assms obtain kvs where ep: "ep = JObj kvs"
    by (cases ep) (auto simp: add_parameter_examples_def)
  from assms ep have "e1 = ep \<or> (\<exists>ps. e1 = JObj (dict_set kvs ''parameters'' (JArr ps)))"
    by (auto simp: add_parameter_examples_def bind_eq_Some_conv split: if_splits)
  with ep show ?thesis by (auto simp: map_of_dict_set)
qed

lemma add_response_examples_examples:
  assumes "add_response_examples he (JObj kvs) = Some e2"
  shows "\<exists>kvs2. e2 = JObj kvs2 \<and> examples_of e2 =
           examples_of (JObj kvs)
           @ (if has_examples (JObj kvs) then []
              else map html_extracted (take 3 (html_get he ''response_examples'')))"
proof -
  define resp where "resp = html_get he ''response_examples''"
  define ex where "ex = (case map_of kvs ''examples'' of Some v \<Rightarrow> v | None \<Rightarrow> JNull)"
  have hex: "has_examples (JObj kvs) = truthy ex"
    by (simp add: has_examples_def ex_def)
  have falsy_empty: "examples_of (JObj kvs) = []" if "\<not> truthy ex"
    using that by (auto simp: examples_of_def ex_def split: option.splits json.splits)
  show ?thesis
  proof (cases "\<not> truthy ex \<and> resp \<noteq> []")
    case True
    with assms have "set_and_append (map html_extracted (take 3 resp)) (JObj kvs) = Some e2"
      by (simp add: add_response_examples_def ex_def resp_def)
    from set_and_append_Some [OF this] True obtain kvs2 where
      "e2 = JObj kvs2"
      "map_of kvs2 ''examples'' = Some (JArr (examples_of (JObj kvs) @ map html_extracted (take 3 resp)))"
      by (cases resp) auto
    with True hex show ?thesis by (auto simp: examples_of_def resp_def)
  next
    case False
    with assms have "e2 = JObj kvs"
      by (auto simp: add_response_examples_def ex_def resp_def split: if_splits)
    with False hex falsy_empty show ?thesis
      by (cases "truthy ex") (auto simp: resp_def)
  qed
qed

lemma add_code_examples_examples:
  assumes "add_code_examples he (JObj kvs) = Some e3"
  shows "examples_of e3 =
           examples_of (JObj kvs) @ map code_example (take 2 (html_get he ''code_examples''))"
proof (cases "html_get he ''code_examples'' \<noteq> []")
  case True
  with assms have "set_and_append (map code_example (take 2 (html_get he ''code_examples''))) (JObj kvs) = Some e3"
    by (simp add: add_code_examples_def)
  from set_and_append_Some [OF this] True obtain kvs3 where
    "e3 = JObj kvs3"
    "map_of kvs3 ''examples'' = Some (JArr (examples_of (JObj kvs) @ map code_example (take 2 (html_get he ''code_examples''))))"
    by (cases "html_get he ''code_examples''") auto
  then show ?thesis by (simp add: examples_of_def)
next
  case False
  with assms show ?thesis by (simp add: add_code_examples_def)
qed

lemma enhance_endpoint_examples:
  assumes "enhance_endpoint he ep = Some ep'"
  shows "examples_of ep' =
           examples_of ep
           @ (if has_examples ep then []
              else map html_extracted (take 3 (html_get he ''response_examples'')))
           @ map code_example (take 2 (html_get he ''code_examples''))"
proof -
  from assms obtain e1 e2 where
    s1: "add_parameter_examples he ep = Some e1"
    and s2: "add_response_examples he e1 = Some e2"
    and s3: "add_code_examples he e2 = Some ep'"
    by (auto simp: enhance_endpoint_def bind_eq_Some_conv)
  from add_parameter_examples_shape [OF s1] obtain kvs kvs1 where
    ep: "ep = JObj kvs" and e1: "e1 = JObj kvs1"
    and same: "map_of kvs1 ''examples'' = map_of kvs ''examples''"
    by blast
  have same_ex: "examples_of e1 = examples_of ep" "has_examples e1 = has_examples ep"
    using ep e1 same by (simp_all add: examples_of_def has_examples_def)
  from add_response_examples_examples [of he kvs1 e2] s2 e1 obtain kvs2 where
    e2: "e2 = JObj kvs2"
    and x2: "examples_of e2 = examples_of e1
           @ (if has_examples e1 then []
              else map html_extracted (take 3 (html_get he ''response_examples'')))"
    by auto
  from add_code_examples_examples [of he kvs2 ep'] s3 e2
  have "examples_of ep' = examples_of e2 @ map code_example (take 2 (html_get he ''code_examples''))"
    by simp
  with x2 same_ex show ?thesis by simp
qed

text \<open>
  Claim C9, as stated, fails for the code-block category: an endpoint that already has
  an example still receives the mined code examples. Here the endpoint \<open>GET /pets\<close>
  has one example and ends with two.
\<close>

theorem enrich_code_examples_counterexample:
  "has_examples (JObj [(''method'', JStr ''GET''), (''path'', JStr ''/pets''),
                       (''examples'', JArr [JStr ''pet-1''])])
   \<and> enhance_endpoints_with_html_examples
       [JObj [(''method'', JStr ''GET''), (''path'', JStr ''/pets''),
              (''examples'', JArr [JStr ''pet-1''])]]
       [(''parameter_examples'', []), (''response_examples'', []),
        (''code_examples'', [''curl https://api.example/pets''])]
     = Some [JObj [(''method'', JStr ''GET''), (''path'', JStr ''/pets''),
              (''examples'', JArr [JStr ''pet-1'',
                 JObj [(''type'', JStr ''code_example''),
                       (''example'', JStr ''curl https://api.example/pets'')]])]]"
  by (simp add: enhance_endpoints_with_html_examples_def enhance_endpoint_def html_get_def
      dict_get_def append_example_def add_parameter_examples_def add_response_examples_def
      add_code_examples_def set_and_append_def code_example_def has_examples_def)

text \<open>
  Claim C9, amended. Whenever the enricher returns, it keeps the number of endpoints,
  and the examples of each endpoint are its former examples, followed by the first
  three mined response examples (tagged \<open>html_extracted\<close>) only when the endpoint had
  no examples at all, followed by the first two mined code examples (tagged
  \<open>code_example\<close>) whether or not the endpoint already had examples.
\<close>

theorem enrich_examples_appended:
  assumes "enhance_endpoints_with_html_examples endpoints he = Some endpoints'"
  shows "length endpoints' = length endpoints
         \<and> (\<forall>i < length endpoints.
               examples_of (endpoints' ! i) =
                 examples_of (endpoints ! i)
                 @ (if has_examples (endpoints ! i) then []
                    else map html_extracted (take 3 (html_get he ''response_examples'')))
                 @ map code_example (take 2 (html_get he ''code_examples'')))"
proof (cases "he = []")
  case True
  with assms have "endpoints' = endpoints"
    by (simp add: enhance_endpoints_with_html_examples_def)
  with True show ?thesis
    by (simp add: html_get_def dict_get_def)
next
  case False
  with assms have "those (map (enhance_endpoint he) endpoints) = Some endpoints'"
    by (simp add: enhance_endpoints_with_html_examples_def)
  from those_map_Some [OF this] show ?thesis
    by (auto dest!: enhance_endpoint_examples)
qed

theorem enrich_examples_appended_witness:
  "enhance_endpoints_with_html_examples
     [JObj [(''method'', JStr ''GET''), (''path'', JStr ''/pets''), (''examples'', JArr [JStr ''pet-1''])],
      JObj [(''method'', JStr ''POST''), (''path'', JStr ''/pets''), (''examples'', JArr [])]]
     [(''parameter_examples'', []),
      (''response_examples'', [''r1'', ''r2'', ''r3'', ''r4'']),
      (''code_examples'', [''c1'', ''c2'', ''c3''])]
   = Some
     [JObj [(''method'', JStr ''GET''), (''path'', JStr ''/pets''),
            (''examples'', JArr [JStr ''pet-1'', code_example ''c1'', code_example ''c2''])],
      JObj [(''method'', JStr ''POST''), (''path'', JStr ''/pets''),
            (''examples'', JArr [html_extracted ''r1'', html_extracted ''r2'', html_extracted ''r3'',
                                code_example ''c1'', code_example ''c2''])]]
   \<and> examples_of (JObj [(''method'', JStr ''GET''), (''path'', JStr ''/pets''),
            (''examples'', JArr [JStr ''pet-1'', code_example ''c1'', code_example ''c2''])])
       = [JStr ''pet-1'', code_example ''c1'', code_example ''c2'']
   \<and> examples_of (JObj [(''method'', JStr ''POST''), (''path'', JStr ''/pets''),
            (''examples'', JArr [html_extracted ''r1'', html_extracted ''r2'', html_extracted ''r3'',
                                code_example ''c1'', code_example ''c2''])])
       = [html_extracted ''r1'', html_extracted ''r2'', html_extracted ''r3'',
          code_example ''c1'', code_example ''c2'']"
proof -
  have run: "enhance_endpoints_with_html_examples
     [JObj [(''method'', JStr ''GET''), (''path'', JStr ''/pets''), (''examples'', JArr [JStr ''pet-1''])],
      JObj [(''method'', JStr ''POST''), (''path'', JStr ''/pets''), (''examples'', JArr [])]]
     [(''parameter_examples'', []),
      (''response_examples'', [''r1'', ''r2'', ''r3'', ''r4'']),
      (''code_examples'', [''c1'', ''c2'', ''c3''])]
   = Some
     [JObj [(''method'', JStr ''GET''), (''path'', JStr ''/pets''),
            (''examples'', JArr [JStr ''pet-1'', code_example ''c1'', code_example ''c2''])],
      JObj [(''method'', JStr ''POST''), (''path'', JStr ''/pets''),
            (''examples'', JArr [html_extracted ''r1'', html_extracted ''r2'', html_extracted ''r3'',
                                code_example ''c1'', code_example ''c2''])]]"
    by (simp add: enhance_endpoints_with_html_examples_def enhance_endpoint_def html_get_def
        dict_get_def append_example_def add_parameter_examples_def add_response_examples_def
        add_code_examples_def set_and_append_def)
  from enrich_examples_appended [OF run] have
    "\<forall>i < 2. examples_of ([JObj [(''method'', JStr ''GET''), (''path'', JStr ''/pets''),
            (''examples'', JArr [JStr ''pet-1'', code_example ''c1'', code_example ''c2''])],
      JObj [(''method'', JStr ''POST''), (''path'', JStr ''/pets''),
            (''examples'', JArr [html_extracted ''r1'', html_extracted ''r2'', html_extracted ''r3'',
                                code_example ''c1'', code_example ''c2''])]] ! i) =
       examples_of ([JObj [(''method'', JStr ''GET''), (''path'', JStr ''/pets''), (''examples'', JArr [JStr ''pet-1''])],
      JObj [(''method'', JStr ''POST''), (''path'', JStr ''/pets''), (''examples'', JArr [])]] ! i)
       @ (if has_examples ([JObj [(''method'', JStr ''GET''), (''path'', JStr ''/pets''), (''examples'', JArr [JStr ''pet-1''])],
      JObj [(''method'', JStr ''POST''), (''path'', JStr ''/pets''), (''examples'', JArr [])]] ! i) then []
          else map html_extracted (take 3 (html_get [(''parameter_examples'', []),
      (''response_examples'', [''r1'', ''r2'', ''r3'', ''r4'']),
      (''code_examples'', [''c1'', ''c2'', ''c3''])] ''response_examples'')))
       @ map code_example (take 2 (html_get [(''parameter_examples'', []),
      (''response_examples'', [''r1'', ''r2'', ''r3'', ''r4'']),
      (''code_examples'', [''c1'', ''c2'', ''c3''])] ''code_examples''))"
    by simp
  then have "examples_of (JObj [(''method'', JStr ''GET''), (''path'', JStr ''/pets''),
            (''examples'', JArr [JStr ''pet-1'', code_example ''c1'', code_example ''c2''])])
       = [JStr ''pet-1'', code_example ''c1'', code_example ''c2'']
   \<and> examples_of (JObj [(''method'', JStr ''POST''), (''path'', JStr ''/pets''),
            (''examples'', JArr [html_extracted ''r1'', html_extracted ''r2'', html_extracted ''r3'',
                                code_example ''c1'', code_example ''c2''])])
       = [html_extracted ''r1'', html_extracted ''r2'', html_extracted ''r3'',
          code_example ''c1'', code_example ''c2'']"
    by (simp add: examples_of_def)
  with run show ?thesis by blast
qed

section \<open>Properties of the OpenAPI parser\<close>

lemma endpoint_info_key:
  assumes "endpoint_info path method operation = Some e"
  shows "endpoint_key e = (Some (JStr path), Some (JStr (upper method)))"
proof -
  from assms have "\<exists>rest. e = JObj ((''method'', JStr (upper method)) # (''path'', JStr path) # rest)"
    unfolding endpoint_info_def bind_eq_Some_conv by (elim exE conjE) auto
  then show ?thesis by (auto simp: endpoint_key_def)
qed

lemma for_each_method_endpoint:
  "for_each (method_endpoint path) ms acc = Some r \<Longrightarrow>
   \<exists>es. r = acc @ es \<and>
     map endpoint_key es =
       map (\<lambda>m. (Some (JStr path), Some (JStr (upper (fst m)))))
         (filter (\<lambda>m. lower (fst m) \<in> set http_methods) ms)"
proof (induction ms arbitrary: acc)
  case Nil
  then show ?case by simp
next
  case (Cons m ms)
  from Cons.prems obtain acc' where
    step: "method_endpoint path m acc = Some acc'" and rest: "for_each (method_endpoint path) ms acc' = Some r"
    by (auto split: option.splits)
  from Cons.IH [OF rest] obtain es where
    es: "r = acc' @ es" "map endpoint_key es =
       map (\<lambda>m. (Some (JStr path), Some (JStr (upper (fst m)))))
         (filter (\<lambda>m. lower (fst m) \<in> set http_methods) ms)"
    by blast
  show ?case
  proof (cases "lower (fst m) \<in> set http_methods")
    case True
    with step obtain e where e: "endpoint_info path (fst m) (snd m) = Some e" "acc' = acc @ [e]"
      by (auto simp: method_endpoint_def bind_eq_Some_conv)
    with es True endpoint_info_key [OF e(1)] show ?thesis by simp
  next
    case False
    with step have "acc' = acc" by (simp add: method_endpoint_def)
    with es False show ?thesis by simp
  qed
qed

lemma for_each_path_endpoints:
  "for_each path_endpoints ps acc = Some r \<Longrightarrow>
   \<exists>es. r = acc @ es \<and>
     map endpoint_key es =
       map (\<lambda>pm. (Some (JStr (fst pm)), Some (JStr (upper (snd pm)))))
         (concat (map (item_methods (\<lambda>m. lower m \<in> set http_methods)) ps))"
proof (induction ps arbitrary: acc)
  case Nil
  then show ?case by simp
next
  case (Cons p ps)
  from Cons.prems obtain acc' where
    step: "path_endpoints p acc = Some acc'" and rest: "for_each path_endpoints ps acc' = Some r"
    by (auto split: option.splits)
  from step obtain ms where ms: "snd p = JObj ms"
    and run: "for_each (method_endpoint (fst p)) ms acc = Some acc'"
    by (cases "snd p") (auto simp: path_endpoints_def)
  from for_each_method_endpoint [OF run] obtain es1 where
    es1: "acc' = acc @ es1" "map endpoint_key es1 =
       map (\<lambda>m. (Some (JStr (fst p)), Some (JStr (upper (fst m)))))
         (filter (\<lambda>m. lower (fst m) \<in> set http_methods) ms)"
    by blast
  from Cons.IH [OF rest] obtain es2 where
    es2: "r = acc' @ es2" "map endpoint_key es2 =
       map (\<lambda>pm. (Some (JStr (fst pm)), Some (JStr (upper (snd pm)))))
         (concat (map (item_methods (\<lambda>m. lower m \<in> set http_methods)) ps))"
    by blast
  have "r = acc @ (es1 @ es2)" using es1 es2 by simp
  moreover have "map endpoint_key (es1 @ es2) =
       map (\<lambda>pm. (Some (JStr (fst pm)), Some (JStr (upper (snd pm)))))
         (concat (map (item_methods (\<lambda>m. lower m \<in> set http_methods)) (p # ps)))"
    using es1 es2 ms by (simp add: item_methods_def comp_def)
  ultimately show ?case by blast
qed

lemma http_methods_lower: "m \<in> set http_methods \<Longrightarrow> lower m = m"
  apply (simp add: http_methods_def)
  apply (elim disjE)
  apply (simp_all add: lower_def lower_char_def)
  done

lemma filter_lowercase:
  assumes "\<forall>m \<in> set ms. lower (fst m) \<in> set http_methods \<longrightarrow> fst m \<in> set http_methods"
  shows "filter (\<lambda>m. lower (fst m) \<in> set http_methods) ms = filter (\<lambda>m. fst m \<in> set http_methods) ms"
proof (rule filter_cong [OF refl])
  fix m assume "m \<in> set ms"
  with assms http_methods_lower [of "fst m"]
  show "(lower (fst m) \<in> set http_methods) = (fst m \<in> set http_methods)"
    by auto
qed

lemma item_methods_all_keys:
  "snd p = JObj ms \<Longrightarrow> map snd (item_methods (\<lambda>m. True) p) = map fst ms"
  by (simp add: item_methods_def comp_def)

lemma item_methods_lowercase:
  assumes "\<forall>k \<in> set (map snd (item_methods (\<lambda>m. True) p)).
             lower k \<in> set http_methods \<longrightarrow> k \<in> set http_methods"
  shows "item_methods (\<lambda>m. lower m \<in> set http_methods) p = item_methods (\<lambda>m. m \<in> set http_methods) p"
proof (cases "snd p")
  case (JObj ms)
  from assms have "\<forall>m \<in> set ms. lower (fst m) \<in> set http_methods \<longrightarrow> fst m \<in> set http_methods"
    unfolding item_methods_all_keys [OF JObj] by simp
  from filter_lowercase [OF this] JObj show ?thesis by (simp add: item_methods_def)
qed (simp_all add: item_methods_def)

lemma method_pairs_lowercase:
  assumes "method_keys_lowercase doc"
  shows "method_pairs (\<lambda>m. lower m \<in> set http_methods) doc = method_pairs (\<lambda>m. m \<in> set http_methods) doc"
proof (cases "py_get doc ''paths'' (JObj [])")
  case None
  then show ?thesis by (simp add: method_pairs_def)
next
  case (Some paths)
  show ?thesis
  proof (cases paths)
    case (JObj ps)
    have all: "\<forall>k \<in> set (map snd (concat (map (item_methods (\<lambda>m. True)) ps))).
                 lower k \<in> set http_methods \<longrightarrow> k \<in> set http_methods"
      using assms Some JObj
      by (simp add: method_keys_lowercase_def all_method_keys_def method_pairs_def list_all_iff)
    have "item_methods (\<lambda>m. lower m \<in> set http_methods) p = item_methods (\<lambda>m. m \<in> set http_methods) p"
      if "p \<in> set ps" for p
    proof (rule item_methods_lowercase, rule ballI)
      fix k assume "k \<in> set (map snd (item_methods (\<lambda>m. True) p))"
      with that have "k \<in> set (map snd (concat (map (item_methods (\<lambda>m. True)) ps)))"
        by auto
      with all show "lower k \<in> set http_methods \<longrightarrow> k \<in> set http_methods" by blast
    qed
    then have "map (item_methods (\<lambda>m. lower m \<in> set http_methods)) ps = map (item_methods (\<lambda>m. m \<in> set http_methods)) ps"
      by simp
    then have "concat (map (item_methods (\<lambda>m. lower m \<in> set http_methods)) ps)
             = concat (map (item_methods (\<lambda>m. m \<in> set http_methods)) ps)"
      by (rule arg_cong)
    then show ?thesis by (simp add: method_pairs_def Some JObj)
  qed (simp_all add: method_pairs_def Some)
qed

text \<open>
  What the parser counts. Whenever \<open>parse_openapi_spec\<close> returns a result for a document, the
  result's \<open>endpoints\<close> list has one entry for each (path, method) pair of the
  \<open>paths\<close> object whose method key, lower-cased, is one of get, post, put, delete,
  patch, options, head (each entry carrying that path and the upper-cased method),
  \<open>total_endpoints\<close> is the length of that list, and for a document that writes its
  method keys in lower case, as a well-formed OpenAPI document does, this is the
  number of (path, method) pairs whose method key is in the recognized set.
\<close>

lemma total_endpoints_count:
  assumes "parse_openapi_spec spec_data = Some api_data"
  shows "\<exists>endpoints.
           py_index api_data ''endpoints'' = Some (JArr endpoints)
         \<and> py_index api_data ''total_endpoints'' = Some (JNum (int (length endpoints)))
         \<and> map endpoint_key endpoints =
             map (\<lambda>pm. (Some (JStr (fst pm)), Some (JStr (upper (snd pm)))))
               (method_pairs (\<lambda>m. lower m \<in> set http_methods) spec_data)
         \<and> length endpoints = length (method_pairs (\<lambda>m. lower m \<in> set http_methods) spec_data)
         \<and> (method_keys_lowercase spec_data \<longrightarrow>
              length endpoints = length (method_pairs (\<lambda>m. m \<in> set http_methods) spec_data))"
proof -
  from assms obtain endpoints info where
    ce: "collect_endpoints spec_data = Some endpoints"
    and shape: "api_data = JObj [(''api_info'', info), (''endpoints'', JArr endpoints),
               (''total_endpoints'', JNum (int (length endpoints)))]"
    by (auto simp: parse_openapi_spec_def bind_eq_Some_conv)
  from ce obtain paths pitems where
    p: "py_get spec_data ''paths'' (JObj []) = Some paths" "py_items paths = Some pitems"
    and run: "for_each path_endpoints pitems [] = Some endpoints"
    by (auto simp: collect_endpoints_def bind_eq_Some_conv)
  from shape have res: "py_index api_data ''endpoints'' = Some (JArr endpoints)"
      "py_index api_data ''total_endpoints'' = Some (JNum (int (length endpoints)))"
    by simp_all
  from p have mp: "method_pairs r spec_data = concat (map (item_methods r) pitems)" for r
    by (cases paths) (auto simp: method_pairs_def)
  from for_each_path_endpoints [OF run] have keys: "map endpoint_key endpoints =
       map (\<lambda>pm. (Some (JStr (fst pm)), Some (JStr (upper (snd pm)))))
         (method_pairs (\<lambda>m. lower m \<in> set http_methods) spec_data)"
    by (simp add: mp)
  from keys have len: "length endpoints = length (method_pairs (\<lambda>m. lower m \<in> set http_methods) spec_data)"
    by (rule map_eq_imp_length_eq)
  from method_pairs_lowercase [of spec_data] len
  have low: "method_keys_lowercase spec_data \<longrightarrow>
              length endpoints = length (method_pairs (\<lambda>m. m \<in> set http_methods) spec_data)"
    by simp
  show ?thesis
    using res keys len low by (intro exI [where x = endpoints] conjI) assumption+
qed

lemma lower_upper_get: "lower ''get'' = ''get''" "upper ''get'' = ''GET''"
  by (simp_all add: lower_def lower_char_def upper_def upper_char_def)

lemma scenario_b_endpoint_info:
  "endpoint_info ''/pets'' ''get'' (JObj [(''summary'', JStr ''List pets''),
         (''responses'', JObj [(''200'', JObj [(''description'', JStr ''OK'')])])])
   = Some scenario_b_endpoint"
  by (simp add: endpoint_info_def request_body_examples_def response_entry_def
      operation_examples_def lower_upper_get scenario_b_endpoint_def)

lemma scenario_b_parse:
  "parse_openapi_spec scenario_b_spec
   = Some (JObj [(''api_info'', JObj [(''title'', JStr ''''), (''version'', JStr ''''),
                                      (''description'', JStr ''''), (''base_url'', JStr '''')]),
        (''endpoints'', JArr [scenario_b_endpoint]),
        (''total_endpoints'', JNum 1)])"
  by (simp add: scenario_b_spec_def parse_openapi_spec_def collect_endpoints_def api_info_def
      path_endpoints_def method_endpoint_def http_methods_def lower_upper_get
      scenario_b_endpoint_info)

lemma scenario_b_lowercase: "method_keys_lowercase scenario_b_spec"
  by (simp add: scenario_b_spec_def method_keys_lowercase_def all_method_keys_def method_pairs_def
      item_methods_def http_methods_def lower_upper_get)

lemma scenario_b_pairs:
  "method_pairs (\<lambda>m. m \<in> set http_methods) scenario_b_spec = [(''/pets'', ''get'')]"
  by (simp add: scenario_b_spec_def method_pairs_def item_methods_def http_methods_def)

lemma total_endpoints_scenario_b:
  "parse_openapi_spec scenario_b_spec
     = Some (JObj [(''api_info'', JObj [(''title'', JStr ''''), (''version'', JStr ''''),
                                        (''description'', JStr ''''), (''base_url'', JStr '''')]),
          (''endpoints'', JArr [scenario_b_endpoint]),
          (''total_endpoints'', JNum 1)])
   \<and> method_keys_lowercase scenario_b_spec
   \<and> (\<exists>endpoints.
         py_index (JObj [(''api_info'', JObj [(''title'', JStr ''''), (''version'', JStr ''''),
                                        (''description'', JStr ''''), (''base_url'', JStr '''')]),
                         (''endpoints'', JArr [scenario_b_endpoint]),
                         (''total_endpoints'', JNum 1)]) ''endpoints'' = Some (JArr endpoints)
       \<and> length endpoints = length (method_pairs (\<lambda>m. m \<in> set http_methods) scenario_b_spec)
       \<and> length endpoints = 1)"
proof -
  from total_endpoints_count [OF scenario_b_parse] scenario_b_lowercase
  obtain endpoints where
    e: "py_index (JObj [(''api_info'', JObj [(''title'', JStr ''''), (''version'', JStr ''''),
                                        (''description'', JStr ''''), (''base_url'', JStr '''')]),
                         (''endpoints'', JArr [scenario_b_endpoint]),
                         (''total_endpoints'', JNum 1)]) ''endpoints'' = Some (JArr endpoints)"
    and l: "length endpoints = length (method_pairs (\<lambda>m. m \<in> set http_methods) scenario_b_spec)"
    by blast
  from l have "length endpoints = 1" by (simp add: scenario_b_pairs)
  with e l scenario_b_parse scenario_b_lowercase show ?thesis by blast
qed

lemma for_each_raises:
  assumes "x \<in> set xs" and "\<And>s. body x s = None"
  shows "for_each body xs s = None"
  using assms(1)
proof (induction xs arbitrary: s)
  case Nil
  then show ?case by simp
next
  case (Cons y ys)
  show ?case
  proof (cases "body y s")
    case None
    then show ?thesis by simp
  next
    case (Some s')
    with assms(2) have "y \<noteq> x" by auto
    with Cons.prems have "x \<in> set ys" by simp
    from Cons.IH [OF this] Some show ?thesis by simp
  qed
qed

lemma extension_pairs:
  "method_pairs (\<lambda>m. m \<in> set http_methods) extension_spec = [(''/pets'', ''get'')]"
  by (simp add: extension_spec_def method_pairs_def item_methods_def http_methods_def)

text \<open>
  Claim C4 says that for every well-formed document \<open>total_endpoints\<close> is the number
  of (path, method) pairs with a recognized method. The parser calls \<open>items()\<close> on
  every value of the \<open>paths\<close> object, so a document in which one of these values is
  not an object makes it raise, and there is no result at all. A specification
  extension with a string value is such an entry: on the document of scenario B with
  \<open>"x-note": "internal"\<close> added to \<open>paths\<close>, which has one recognized pair, the
  parser raises, where it returns one endpoint on the document without the extension.
\<close>

theorem parse_raises_on_scalar_path_entry:
  assumes "py_get spec_data ''paths'' (JObj []) = Some (JObj ps)"
    and "(k, v) \<in> set ps"
    and "py_items v = None"
  shows "parse_openapi_spec spec_data = None"
proof -
  from assms(3) have "path_endpoints (k, v) s = None" for s
    by (simp add: path_endpoints_def)
  from for_each_raises [of "(k, v)" ps path_endpoints, OF assms(2) this]
  have "for_each path_endpoints ps [] = None" .
  with assms(1) have "collect_endpoints spec_data = None"
    by (simp add: collect_endpoints_def)
  then show ?thesis by (simp add: parse_openapi_spec_def)
qed

theorem parse_raises_on_scalar_path_entry_witness:
  "py_get extension_spec ''paths'' (JObj []) =
     Some (JObj [(''/pets'', JObj [(''get'', JObj [(''summary'', JStr ''List pets''),
         (''responses'', JObj [(''200'', JObj [(''description'', JStr ''OK'')])])])]),
                 (''x-note'', JStr ''internal'')])
   \<and> py_items (JStr ''internal'') = None
   \<and> length (method_pairs (\<lambda>m. m \<in> set http_methods) extension_spec) = 1
   \<and> parse_openapi_spec extension_spec = None
   \<and> (\<exists>api_data. parse_openapi_spec scenario_b_spec = Some api_data
         \<and> py_index api_data ''total_endpoints'' = Some (JNum 1))"
proof -
  have g: "py_get extension_spec ''paths'' (JObj []) =
     Some (JObj [(''/pets'', JObj [(''get'', JObj [(''summary'', JStr ''List pets''),
         (''responses'', JObj [(''200'', JObj [(''description'', JStr ''OK'')])])])]),
                 (''x-note'', JStr ''internal'')])"
    by (simp add: extension_spec_def)
  have "parse_openapi_spec extension_spec = None"
    by (rule parse_raises_on_scalar_path_entry [OF g, of "''x-note''" "JStr ''internal''"]) simp_all
  with g show ?thesis by (simp add: extension_pairs scenario_b_parse)
qed
section \<open>Properties of lenient parsing and specification resolution\<close>

lemma py_in_None_indep: "py_in k d = None \<Longrightarrow> py_in k' d = None"
  by (cases d) auto

lemma any_key_in_list_ex:
  "(any_key_in ks d = Some True) = list_ex (\<lambda>k. py_in k d = Some True) ks"
proof (induction ks)
  case Nil
  then show ?case by simp
next
  case (Cons k ks)
  show ?case
  proof (cases "py_in k d")
    case None
    then have "\<And>k'. py_in k' d \<noteq> Some True" using py_in_None_indep [of k d] by simp
    with None show ?thesis by (simp add: list_ex_iff)
  next
    case (Some b)
    with Cons show ?thesis by (cases b) simp_all
  qed
qed

lemma validates_truthy: "validates doc \<Longrightarrow> truthy doc"
  by (cases doc) (auto simp: validates_def spec_keys_def)

lemma try_candidate_wins:
  "try_candidate fetch loads u =
     (if candidate_wins fetch loads u
      then (case parsed_body fetch loads u of
              None \<Rightarrow> None
            | Some doc \<Rightarrow> Some \<lparr>spec = doc, source_url = u, success = True\<rparr>)
      else None)"
proof (cases "parsed_body fetch loads u")
  case None
  then show ?thesis
    by (auto simp: try_candidate_def candidate_wins_def parsed_body_def
        split: http_response.splits outcome.splits if_splits)
next
  case (Some doc)
  then have t: "try_candidate fetch loads u =
      (if truthy doc then
         (case any_key_in spec_keys doc of
            Some True \<Rightarrow> Some \<lparr>spec = doc, source_url = u, success = True\<rparr>
          | _ \<Rightarrow> None)
       else None)"
    by (auto simp: try_candidate_def parsed_body_def
        split: http_response.splits outcome.splits if_splits)
  show ?thesis
  proof (cases "validates doc")
    case True
    then have "any_key_in spec_keys doc = Some True"
      by (simp add: any_key_in_list_ex validates_def)
    with True validates_truthy [OF True] Some t show ?thesis
      by (simp add: candidate_wins_def)
  next
    case False
    then have "any_key_in spec_keys doc \<noteq> Some True"
      by (simp add: any_key_in_list_ex validates_def)
    with False Some t show ?thesis
      by (auto simp: candidate_wins_def split: option.splits bool.splits)
  qed
qed

lemma extract_openapi_spec_first_valid:
  "extract_openapi_spec fetch loads candidates = first_valid_spec fetch loads candidates"
proof (induction candidates)
  case Nil
  then show ?case by (simp add: first_valid_spec_def)
next
  case (Cons u us)
  show ?case
  proof (cases "candidate_wins fetch loads u")
    case True
    then obtain doc where "parsed_body fetch loads u = Some doc"
      by (auto simp: candidate_wins_def split: option.splits)
    with True show ?thesis by (simp add: try_candidate_wins first_valid_spec_def)
  next
    case False
    with Cons show ?thesis by (simp add: try_candidate_wins first_valid_spec_def)
  qed
qed

lemma strip_line_brackets: "strip_line False (replicate n (CHR ''['')) = replicate n (CHR ''['')"
  by (induction n) simp_all

lemma strip_block_brackets: "strip_block Outside (replicate n (CHR ''['')) = replicate n (CHR ''['')"
  by (induction n) simp_all

lemma deep_text_cleaned:
  "strip_block_comments (strip_line_comments deep_text) = newline # replicate 100000 (CHR ''['')"
  by (simp add: deep_text_def strip_block_comments_def strip_line_comments_def
      strip_line_brackets strip_block_brackets newline_def)

lemma brackets_loads_deep_text: "brackets_loads deep_text = JSONDecodeError"
  by (simp add: brackets_loads_def deep_text_def newline_def)

lemma brackets_loads_cleaned: "brackets_loads (newline # replicate 100000 (CHR ''['')) = OtherError"
  by (simp add: brackets_loads_def list_all_iff newline_def)

lemma strip_comments_example:
  "strip_block_comments (strip_line_comments (''{ // c'' @ [newline] @ '' /* x */ a:1 /* }''))
     = ''{ '' @ [newline] @ ''  a:1 /* }''"
  by (simp add: strip_block_comments_def strip_line_comments_def newline_def)

lemma parse_json_returns:
  assumes "loads (strip_block_comments (strip_line_comments text_content)) \<noteq> OtherError"
  shows "parse_json_with_comments loads text_content =
     Returned (case loads text_content of
        Loaded v \<Rightarrow> v
      | OtherError \<Rightarrow> JNull
      | JSONDecodeError \<Rightarrow>
          (case loads (strip_block_comments (strip_line_comments text_content)) of
             Loaded v \<Rightarrow> v | _ \<Rightarrow> JNull))"
  using assms by (simp add: parse_json_with_comments_def split: loads_result.splits)

text \<open>
  Claim C8 says that the lenient parser never raises. The first \<open>json.loads\<close> is
  covered by \<open>except Exception\<close>, the second one only by
  \<open>except json.JSONDecodeError\<close>: when the strict parser rejects the raw text with a
  decode error and fails on the cleaned text with any other exception, that exception
  leaves \<open>_parse_json_with_comments\<close>. The witness is the text \<open>//\<close>, line feed and
  100000 opening brackets.
\<close>

theorem parse_json_retry_raises:
  assumes "loads text_content = JSONDecodeError"
    and "loads (strip_block_comments (strip_line_comments text_content)) = OtherError"
  shows "parse_json_with_comments loads text_content = Raised"
  using assms by (simp add: parse_json_with_comments_def)

theorem parse_json_retry_raises_witness:
  "brackets_loads deep_text = JSONDecodeError
   \<and> brackets_loads (strip_block_comments (strip_line_comments deep_text)) = OtherError
   \<and> parse_json_with_comments brackets_loads deep_text = Raised"
proof -
  have a: "brackets_loads deep_text = JSONDecodeError" by (rule brackets_loads_deep_text)
  have b: "brackets_loads (strip_block_comments (strip_line_comments deep_text)) = OtherError"
    by (simp only: deep_text_cleaned brackets_loads_cleaned)
  from parse_json_retry_raises [OF a b] a b show ?thesis by blast
qed

section \<open>Properties of detection and extraction\<close>




lemma set_add_unique: "set (add_unique urls u) = insert u (set urls)"
  by (auto simp: add_unique_def)

lemma set_foldl_add_unique: "set (foldl add_unique urls us) = set urls \<union> set us"
  by (induction us arbitrary: urls) (auto simp: set_add_unique)

lemma path_candidates_keeps: "set urls \<subseteq> set (path_candidates base path urls)"
  by (auto simp: path_candidates_def Let_def set_add_unique)

lemma those_map_None: "(those (map f xs) = None) = list_ex (\<lambda>x. f x = None) xs"
  by (induction xs) (auto split: option.splits)

lemma candidate_urls_None:
  "(candidate_urls l soup url (strip_fragment url) = None) = url_parsing_raises l soup url"
proof (cases "those (map (urljoin l url) (spec_matches soup))")
  case None
  then have "list_ex (\<lambda>m. urljoin l url m = None) (spec_matches soup)"
    by (simp add: those_map_None)
  with None show ?thesis by (simp add: candidate_urls_def url_parsing_raises_def)
next
  case (Some full_urls)
  then have "\<not> list_ex (\<lambda>m. urljoin l url m = None) (spec_matches soup)"
    using those_map_None [of "urljoin l url" "spec_matches soup"] by simp
  with Some show ?thesis
    by (cases "urlparse l (strip_fragment url)") (simp_all add: candidate_urls_def url_parsing_raises_def)
qed

lemma candidate_urls_base:
  assumes "candidate_urls l soup url c = Some urls"
  shows "\<exists>base. set (map (\<lambda>pattern. base @ pattern) base_patterns) \<subseteq> set urls"
proof -
  from assms obtain full_urls parsed where
    u: "Some (let found = foldl add_unique [] full_urls;
                  base = fst parsed @ ''://'' @ fst (snd parsed);
                  with_base = foldl add_unique found (map (\<lambda>pattern. base @ pattern) base_patterns)
              in path_candidates base (snd (snd parsed)) with_base) = Some urls"
    unfolding candidate_urls_def bind_eq_Some_conv by blast
  define base where "base = fst parsed @ ''://'' @ fst (snd parsed)"
  define found where "found = foldl add_unique [] full_urls"
  from u have u': "urls = path_candidates base (snd (snd parsed))
      (foldl add_unique found (map (\<lambda>pattern. base @ pattern) base_patterns))"
    unfolding Let_def base_def found_def option.inject by (rule sym)
  have "set (map (\<lambda>pattern. base @ pattern) base_patterns)
      \<subseteq> set (foldl add_unique found (map (\<lambda>pattern. base @ pattern) base_patterns))"
    unfolding set_foldl_add_unique by blast
  also have "\<dots> \<subseteq> set urls"
    unfolding u' by (rule path_candidates_keeps)
  finally show ?thesis by blast
qed

lemma candidate_urls_nonempty:
  assumes "candidate_urls l soup url c = Some urls"
  shows "urls \<noteq> []"
proof
  assume "urls = []"
  with candidate_urls_base [OF assms] show False
    by (simp add: base_patterns_def)
qed

lemma detection_of_candidates:
  assumes "urls \<noteq> []"
  shows "detection_of l scored urls =
     \<lparr>is_swagger = True, confidence = min (snd scored) 1, indicators = fst scored,
      spec_urls = urls, extraction_method = ''openapi_spec''\<rparr>"
  using assms by (simp add: detection_of_def Let_def)

lemma detect_with_html:
  "detect_swagger_page l fetch_text url (Some html) =
     map_option (\<lambda>urls. Detected (detection_of l (page_score l (strip_fragment url) html) urls))
       (candidate_urls l (soup_of l html) url (strip_fragment url))"
  by (simp add: detect_swagger_page_def Let_def split: option.splits)

lemma detect_raises:
  "(detect_swagger_page l fetch_text url (Some html) = None)
     = url_parsing_raises l (soup_of l html) url"
  by (simp add: detect_with_html candidate_urls_None)



lemma plain_checks: "page_score plain_lib plain_url plain_html = ([], 0)"
  by (simp add: page_score_def checks_def plain_lib_def plain_soup_def plain_url_def plain_html_def
      Let_def lower_def lower_char_def endswith_def)

lemma plain_candidate_urls:
  "candidate_urls plain_lib plain_soup plain_url plain_url = Some plain_candidates"
  by (simp add: candidate_urls_def plain_lib_def plain_soup_def Let_def base_patterns_def
      add_unique_def path_candidates_def endswith_def dir_path_def plain_candidates_def)

lemma plain_strip_fragment: "strip_fragment plain_url = plain_url"
  by (simp add: strip_fragment_def plain_url_def)


lemma plain_detect:
  "detect_swagger_page plain_lib fetch_text plain_url (Some plain_html) =
     Some (Detected \<lparr>is_swagger = True, confidence = 0, indicators = [],
                     spec_urls = plain_candidates, extraction_method = ''openapi_spec''\<rparr>)"
proof -
  have s: "soup_of plain_lib plain_html = plain_soup" by (simp add: plain_lib_def)
  have n: "plain_candidates \<noteq> []" by (simp add: plain_candidates_def)
  show ?thesis
    by (simp add: detect_with_html plain_strip_fragment s plain_checks plain_candidate_urls
        detection_of_candidates [OF n])
qed




lemma bracket_detect:
  "detect_swagger_page strict_lib fetch_text bracket_url (Some plain_html) = None"
  by (simp add: detect_raises url_parsing_raises_def strict_lib_def strip_fragment_def
      bracket_url_def)




lemma enhanced_extract_with_html:
  assumes "detect_swagger_page l fetch_text url (Some html) = Some (Detected d)"
  shows "enhanced_extract l fetch_text fetch loads url (Some html) =
     (case extract_openapi_spec fetch loads (spec_urls d) of
        Some r \<Rightarrow>
          spec_extraction d r (if html \<noteq> [] then extract_examples_from_html (soup_of l html) else [])
      | None \<Rightarrow>
          html_fallback d (soup_of l html)
            (if html \<noteq> [] then extract_examples_from_html (soup_of l html) else []))"
proof -
  from assms obtain urls where
    c: "candidate_urls l (soup_of l html) url (strip_fragment url) = Some urls"
    and d: "d = detection_of l (page_score l (strip_fragment url) html) urls"
    by (auto simp: detect_with_html)
  from candidate_urls_nonempty [OF c] have n: "urls \<noteq> []" .
  from n d have "is_swagger d" "spec_urls d = urls"
    by (simp_all add: detection_of_candidates)
  with n assms show ?thesis
    by (simp add: enhanced_extract_def Let_def)
qed



lemma resolution_agrees:
  assumes "\<forall>u \<in> set candidates. \<forall>status text_content. fetch u = Response status text_content \<longrightarrow>
      (success_status status \<longrightarrow> status = 200)
      \<and> loads text_content \<noteq> OtherError
      \<and> (\<forall>doc. parse_json_with_comments loads text_content = Returned doc \<longrightarrow> validates doc \<longrightarrow>
            (\<exists>kvs. doc = JObj kvs))"
  shows "extract_openapi_spec fetch loads candidates =
     map_option (\<lambda>found. \<lparr>spec = fst found, source_url = snd found, success = True\<rparr>)
       (spec_says_resolution fetch loads candidates)"
  using assms
proof (induction candidates)
  case Nil
  then show ?case by simp
next
  case (Cons u us)
  have same: "try_candidate fetch loads u =
      map_option (\<lambda>doc. \<lparr>spec = doc, source_url = u, success = True\<rparr>)
        (spec_says_candidate fetch loads u)"
  proof (cases "fetch u")
    case RequestFailed
    then show ?thesis by (simp add: try_candidate_def spec_says_candidate_def)
  next
    case (Response status text_content)
    with Cons.prems have st: "success_status status \<longrightarrow> status = 200"
      and lo: "loads text_content \<noteq> OtherError"
      and ob: "\<And>doc. parse_json_with_comments loads text_content = Returned doc \<Longrightarrow>
            validates doc \<Longrightarrow> \<exists>kvs. doc = JObj kvs"
      by auto
    show ?thesis
    proof (cases "status = 200")
      case False
      with st Response show ?thesis by (simp add: try_candidate_def spec_says_candidate_def)
    next
      case True
      then have ok: "success_status status" by (simp add: success_status_def)
      show ?thesis
      proof (cases "parse_json_with_comments loads text_content")
        case Raised
        with lo have "spec_says_parse loads text_content = JNull"
          by (auto simp: parse_json_with_comments_def spec_says_parse_def split: loads_result.splits)
        with Raised Response True show ?thesis
          by (simp add: try_candidate_def spec_says_candidate_def spec_says_validate_def)
      next
        case (Returned doc)
        with lo have p: "spec_says_parse loads text_content = doc"
          by (auto simp: parse_json_with_comments_def spec_says_parse_def split: loads_result.splits)
        have w: "try_candidate fetch loads u =
            (if validates doc then Some \<lparr>spec = doc, source_url = u, success = True\<rparr> else None)"
          using try_candidate_wins [of fetch loads u] Response True Returned
          by (simp add: candidate_wins_def parsed_body_def)
        have v: "validates doc = spec_says_validate doc"
        proof (cases "validates doc")
          case True
          from ob [OF Returned True] obtain kvs where "doc = JObj kvs" by blast
          with True show ?thesis
            by (simp add: validates_def spec_says_validate_def list_ex_iff)
        next
          case False
          then show ?thesis
            by (cases doc) (auto simp: validates_def spec_says_validate_def list_ex_iff)
        qed
        from w v p Response ok show ?thesis by (simp add: spec_says_candidate_def)
      qed
    qed
  qed
  from Cons.prems have "\<forall>u \<in> set us. \<forall>status text_content. fetch u = Response status text_content \<longrightarrow>
      (success_status status \<longrightarrow> status = 200)
      \<and> loads text_content \<noteq> OtherError
      \<and> (\<forall>doc. parse_json_with_comments loads text_content = Returned doc \<longrightarrow> validates doc \<longrightarrow>
            (\<exists>kvs. doc = JObj kvs))"
    by simp
  from Cons.IH [OF this] same show ?case
    by (cases "spec_says_candidate fetch loads u") simp_all
qed

lemma second_candidate_wins:
  "extract_openapi_spec spec_server spec_loads plain_candidates =
     Some \<lparr>spec = openapi_doc, source_url = ''https://example.com/openapi.json'', success = True\<rparr>"
  by (simp add: plain_candidates_def try_candidate_def spec_server_def spec_loads_def
      parse_json_with_comments_def openapi_doc_def spec_keys_def)

lemma note_code_resolution:
  "extract_openapi_spec note_server note_loads plain_candidates =
     Some \<lparr>spec = JStr ''my paths'', source_url = ''https://example.com/swagger.json'', success = True\<rparr>"
  by (simp add: plain_candidates_def try_candidate_def note_server_def note_loads_def
      parse_json_with_comments_def spec_keys_def)

lemma note_spec_resolution:
  "spec_says_resolution note_server note_loads plain_candidates =
     Some (openapi_doc, ''https://example.com/openapi.json'')"
  by (simp add: plain_candidates_def spec_says_candidate_def note_server_def note_loads_def
      note_text_def openapi_text_def quoted_def
      spec_says_parse_def spec_says_validate_def success_status_def openapi_doc_def spec_keys_def)

text \<open>
  Claim C7 says that resolution returns the document of the first candidate that
  fetches with a success status and whose parsed body contains one of the keys
  \<open>swagger\<close>, \<open>openapi\<close>, \<open>paths\<close>, and that the pipeline goes on to the HTML
  fallback when there is none. The code tests the parsed body with \<open>in\<close>, which on a
  string is a substring test. On the host whose first candidate answers with the JSON
  string \<open>"my paths"\<close> and whose second candidate serves a document with the keys
  \<open>openapi\<close> and \<open>paths\<close>, the code returns the string of the first candidate, where
  the words of the specification give the document of the second; the parser then
  raises on the string, and the extraction ends as failed, without the HTML fallback.
\<close>

theorem spec_resolution_string_body:
  "extract_openapi_spec note_server note_loads plain_candidates =
     Some \<lparr>spec = JStr ''my paths'', source_url = ''https://example.com/swagger.json'', success = True\<rparr>
   \<and> spec_says_resolution note_server note_loads plain_candidates =
     Some (openapi_doc, ''https://example.com/openapi.json'')
   \<and> parse_openapi_spec (JStr ''my paths'') = None
   \<and> enhanced_extract plain_lib (\<lambda>u. None) note_server note_loads plain_url (Some plain_html)
     = ExtractFailed True"
proof -
  have p: "parse_openapi_spec (JStr ''my paths'') = None"
    by (simp add: parse_openapi_spec_def collect_endpoints_def)
  have "enhanced_extract plain_lib (\<lambda>u. None) note_server note_loads plain_url (Some plain_html)
      = ExtractFailed True"
    by (simp add: enhanced_extract_with_html [OF plain_detect] note_code_resolution
        spec_extraction_def p)
  with p show ?thesis by (simp add: note_code_resolution note_spec_resolution)
qed


section \<open>Properties of processing one URL\<close>

lemma upt_0_3: "[0..<3] = [0, 1, 2::nat]"
  by code_simp

lemma attempts_upt: "[0..<max_retries + 1] = [0, 1, 2]"
  by (simp add: max_retries_def upt_0_3)

lemma bedrock_upt: "[0..<bedrock_max_retries] = [0, 1, 2]"
  by (simp add: bedrock_max_retries_def upt_0_3)

lemma dict_keys_dict_get: "(u \<in> set (dict_keys d)) = (dict_get d u \<noteq> None)"
  by (simp add: dict_keys_def dict_get_def map_of_eq_None_iff)

lemma record_failure_simps:
  "jina_calls (record_failure e url r msg w) = jina_calls w"
  "invoke_calls (record_failure e url r msg w) = invoke_calls w"
  "bedrock_calls (record_failure e url r msg w) = bedrock_calls w"
  "swagger_calls (record_failure e url r msg w) = swagger_calls w"
  "successful_urls (stats (record_failure e url r msg w)) = successful_urls (stats w)"
  "failed_urls (stats (record_failure e url r msg w)) =
     dict_set (failed_urls (stats w)) url
       \<lparr>reason = reason_value r, error_msg = msg, timestamp = now_iso e\<rparr>"
  by (simp_all add: record_failure_def add_failure_def)

lemma record_failure_same_calls:
  assumes "record_failure e u r m w2 = record_failure e u r m w1"
  shows "invoke_calls w2 = invoke_calls w1"
proof -
  from assms have "invoke_calls (record_failure e u r m w2) = invoke_calls (record_failure e u r m w1)"
    by (rule arg_cong)
  then show ?thesis by (simp only: record_failure_simps)
qed

lemma sleep_simps:
  "jina_calls (sleep s w) = jina_calls w"
  "invoke_calls (sleep s w) = invoke_calls w"
  "bedrock_calls (sleep s w) = bedrock_calls w"
  "swagger_calls (sleep s w) = swagger_calls w"
  "stats (sleep s w) = stats w"
  by (simp_all add: sleep_def)

lemma swagger_stage_effect:
  assumes "swagger_stage e url c w = (c', r, w2)"
  shows "jina_calls w2 = jina_calls w \<and> invoke_calls w2 = invoke_calls w
       \<and> bedrock_calls w2 = bedrock_calls w
       \<and> successful_urls (stats w2) = successful_urls (stats w)
       \<and> failed_urls (stats w2) = failed_urls (stats w)"
  using assms
  by (auto simp: swagger_stage_def Let_def add_swagger_detection_def split: extract_result.splits)

lemma bedrock_attempts_effect:
  "bedrock_attempts e c u as w = (p, w3) \<Longrightarrow>
   jina_calls w3 = jina_calls w \<and> bedrock_calls w3 = bedrock_calls w \<and> stats w3 = stats w"
proof (induction as arbitrary: w)
  case Nil
  then show ?case by simp
next
  case (Cons a as)
  show ?case
  proof (cases "invoke_model e (invoke_calls w) c u")
    case (InvokeOk t)
    with Cons.prems show ?thesis by (auto simp: Let_def)
  next
    case (InvokeRaises msg)
    show ?thesis
    proof (cases "a < bedrock_max_retries - 1")
      case True
      with InvokeRaises Cons.prems
      have "bedrock_attempts e c u as (sleep (bedrock_delay msg a) (w\<lparr>invoke_calls := invoke_calls w + 1\<rparr>)) = (p, w3)"
        by (simp add: Let_def)
      from Cons.IH [OF this] show ?thesis by (simp add: sleep_def)
    next
      case False
      with InvokeRaises Cons.prems show ?thesis by (auto simp: Let_def)
    qed
  qed
qed

lemma process_with_bedrock_effect:
  assumes "process_with_bedrock_rate_limited e c u w = (p, w3)"
  shows "jina_calls w3 = jina_calls w \<and> bedrock_calls w3 = bedrock_calls w + 1 \<and> stats w3 = stats w"
proof (cases "bedrock_client e")
  case True
  with assms have "bedrock_attempts e c u [0..<bedrock_max_retries] (w\<lparr>bedrock_calls := bedrock_calls w + 1\<rparr>) = (p, w3)"
    by (simp add: process_with_bedrock_rate_limited_def process_with_bedrock_def Let_def)
  from bedrock_attempts_effect [OF this] show ?thesis by simp
next
  case False
  with assms show ?thesis
    by (auto simp: process_with_bedrock_rate_limited_def process_with_bedrock_def Let_def)
qed

text \<open>What one call of \<open>process_with_bedrock\<close> costs: nothing without a client; one
  to three passes when every pass fails, three when every pass raises, one when every
  pass gives an empty text; one pass when the first one gives a text.\<close>

lemma process_with_bedrock_no_client:
  assumes "\<not> bedrock_client e"
  shows "fst (process_with_bedrock_rate_limited e c u w) = None
       \<and> invoke_calls (snd (process_with_bedrock_rate_limited e c u w)) = invoke_calls w"
  using assms by (simp add: process_with_bedrock_rate_limited_def process_with_bedrock_def Let_def)

lemma process_with_bedrock_fails:
  assumes "bedrock_client e" and "\<forall>n c. invoke_fails (invoke_model e n c u)"
  shows "(fst (process_with_bedrock_rate_limited e c u w) = None
          \<or> fst (process_with_bedrock_rate_limited e c u w) = Some [])
       \<and> invoke_calls w + 1 \<le> invoke_calls (snd (process_with_bedrock_rate_limited e c u w))
       \<and> invoke_calls (snd (process_with_bedrock_rate_limited e c u w)) \<le> invoke_calls w + 3"
proof -
  from assms(2) have i0: "invoke_fails (invoke_model e (invoke_calls w) c u)"
    and i1: "invoke_fails (invoke_model e (invoke_calls w + 1) c u)"
    and i2: "invoke_fails (invoke_model e (invoke_calls w + 2) c u)"
    by blast+
  show ?thesis
    using assms(1) i0 i1 i2
    by (auto simp: process_with_bedrock_rate_limited_def process_with_bedrock_def Let_def
        upt_0_3 sleep_def bedrock_max_retries_def invoke_fails_def split: invoke_outcome.splits)
qed

lemma process_with_bedrock_all_raise:
  assumes "bedrock_client e" and "\<forall>n c. \<exists>msg. invoke_model e n c u = InvokeRaises msg"
  shows "fst (process_with_bedrock_rate_limited e c u w) = None
       \<and> invoke_calls (snd (process_with_bedrock_rate_limited e c u w)) = invoke_calls w + 3"
proof -
  from assms(2) obtain m0 where m0: "invoke_model e (invoke_calls w) c u = InvokeRaises m0" by blast
  from assms(2) obtain m1 where m1: "invoke_model e (invoke_calls w + 1) c u = InvokeRaises m1" by blast
  from assms(2) obtain m2 where m2: "invoke_model e (invoke_calls w + 2) c u = InvokeRaises m2" by blast
  show ?thesis
    using assms(1) m0 m1 m2
    by (simp add: process_with_bedrock_rate_limited_def process_with_bedrock_def Let_def
        upt_0_3 sleep_def bedrock_max_retries_def)
qed

lemma process_with_bedrock_first_answer:
  assumes "bedrock_client e" and "invoke_model e (invoke_calls w) c u = InvokeOk p"
  shows "fst (process_with_bedrock_rate_limited e c u w) = Some p
       \<and> invoke_calls (snd (process_with_bedrock_rate_limited e c u w)) = invoke_calls w + 1"
  using assms
  by (simp add: process_with_bedrock_rate_limited_def process_with_bedrock_def Let_def
      upt_0_3 bedrock_max_retries_def)

lemma failing_fetch_retry:
  assumes "fetch_fails e url (jina_calls w)" "a < max_retries"
  shows "url_attempts e url (a # rest) w =
           url_attempts e url rest (sleep 2 (w\<lparr>jina_calls := jina_calls w + 1\<rparr>))"
  using assms
  by (auto simp: fetch_fails_def extract_content_via_jina_rate_limited_def split: sum.splits)

lemma failing_fetch_last:
  assumes "fetch_fails e url (jina_calls w)" "\<not> a < max_retries"
  shows "url_attempts e url (a # rest) w =
           (None, record_failure e url (fst (fetch_failure e url (jina_calls w)))
                    (snd (fetch_failure e url (jina_calls w)))
                    (w\<lparr>jina_calls := jina_calls w + 1\<rparr>))"
  using assms
  by (auto simp: fetch_fails_def fetch_failure_def extract_content_via_jina_rate_limited_def
      split: sum.splits)

lemma fetch_always_fails:
  assumes "\<forall>n. fetch_fails e url n"
  shows "\<exists>w'. process_single_url e url w =
           (None, record_failure e url (fst (fetch_failure e url (jina_calls w + 2)))
                    (snd (fetch_failure e url (jina_calls w + 2))) w')
         \<and> jina_calls w' = jina_calls w + 3 \<and> invoke_calls w' = invoke_calls w
         \<and> bedrock_calls w' = bedrock_calls w \<and> stats w' = stats w"
proof -
  define w1 where "w1 = sleep 2 (w\<lparr>jina_calls := jina_calls w + 1\<rparr>)"
  define w2 where "w2 = sleep 2 (w1\<lparr>jina_calls := jina_calls w1 + 1\<rparr>)"
  define w3 where "w3 = w2\<lparr>jina_calls := jina_calls w2 + 1\<rparr>"
  have j1: "jina_calls w1 = jina_calls w + 1" by (simp add: w1_def sleep_def)
  have j2: "jina_calls w2 = jina_calls w + 2" by (simp add: w2_def sleep_def j1)
  have a1: "url_attempts e url [0, 1, 2] w = url_attempts e url [1, 2] w1"
    unfolding w1_def using assms by (intro failing_fetch_retry) (simp_all add: max_retries_def)
  have a2: "url_attempts e url [1, 2] w1 = url_attempts e url [2] w2"
    unfolding w2_def using assms by (intro failing_fetch_retry) (simp_all add: max_retries_def)
  have a3: "url_attempts e url [2] w2 =
      (None, record_failure e url (fst (fetch_failure e url (jina_calls w2)))
               (snd (fetch_failure e url (jina_calls w2))) w3)"
    unfolding w3_def using assms by (intro failing_fetch_last) (simp_all add: max_retries_def)
  have "process_single_url e url w =
      (None, record_failure e url (fst (fetch_failure e url (jina_calls w + 2)))
               (snd (fetch_failure e url (jina_calls w + 2))) w3)"
    unfolding process_single_url_def attempts_upt a1 a2 a3 j2 by (rule refl)
  moreover have "jina_calls w3 = jina_calls w + 3 \<and> invoke_calls w3 = invoke_calls w
      \<and> bedrock_calls w3 = bedrock_calls w \<and> stats w3 = stats w"
    by (simp add: w3_def w2_def w1_def sleep_def)
  ultimately show ?thesis by blast
qed

lemma failing_transform_attempt:
  assumes nf: "\<not> fetch_fails e url (jina_calls w)"
    and tf: "\<And>c w. (fst (process_with_bedrock_rate_limited e c url w) = None
                     \<or> fst (process_with_bedrock_rate_limited e c url w) = Some [])
                  \<and> invoke_calls w + lo \<le> invoke_calls (snd (process_with_bedrock_rate_limited e c url w))
                  \<and> invoke_calls (snd (process_with_bedrock_rate_limited e c url w)) \<le> invoke_calls w + hi"
  shows "\<exists>w3. jina_calls w3 = jina_calls w + 1 \<and> bedrock_calls w3 = bedrock_calls w + 1
           \<and> invoke_calls w + lo \<le> invoke_calls w3 \<and> invoke_calls w3 \<le> invoke_calls w + hi
           \<and> successful_urls (stats w3) = successful_urls (stats w)
           \<and> failed_urls (stats w3) = failed_urls (stats w)
           \<and> url_attempts e url (a # rest) w =
               (if a < max_retries then url_attempts e url rest (sleep 2 w3)
                else (None, record_failure e url BEDROCK_ERROR
                              ''Failed to process content with Bedrock after all retries'' w3))"
proof -
  from nf obtain c where c: "extract_content_via_jina e url (jina_http_of e (jina_calls w) url) = Inr c"
    and ne: "c \<noteq> []"
    by (auto simp: fetch_fails_def split: sum.splits)
  define w1 where "w1 = w\<lparr>jina_calls := jina_calls w + 1\<rparr>"
  obtain c' r w2 where sw: "swagger_stage e url c w1 = (c', r, w2)"
    by (cases "swagger_stage e url c w1") auto
  obtain p w3 where pb: "process_with_bedrock_rate_limited e c' url w2 = (p, w3)"
    by (cases "process_with_bedrock_rate_limited e c' url w2") auto
  from tf [of c' w2] pb
  have p: "p = None \<or> p = Some []" and lo: "invoke_calls w2 + lo \<le> invoke_calls w3"
    and hi: "invoke_calls w3 \<le> invoke_calls w2 + hi"
    by simp_all
  from swagger_stage_effect [OF sw] process_with_bedrock_effect [OF pb] lo hi
  have counts: "jina_calls w3 = jina_calls w + 1" "bedrock_calls w3 = bedrock_calls w + 1"
    "invoke_calls w + lo \<le> invoke_calls w3" "invoke_calls w3 \<le> invoke_calls w + hi"
    "successful_urls (stats w3) = successful_urls (stats w)"
    "failed_urls (stats w3) = failed_urls (stats w)"
    by (simp_all add: w1_def)
  have "url_attempts e url (a # rest) w =
      (if a < max_retries then url_attempts e url rest (sleep 2 w3)
       else (None, record_failure e url BEDROCK_ERROR
                     ''Failed to process content with Bedrock after all retries'' w3))"
    using c ne sw pb p
    by (auto simp: extract_content_via_jina_rate_limited_def w1_def)
  with counts show ?thesis by blast
qed

lemma transform_always_fails:
  assumes nf: "\<forall>n. \<not> fetch_fails e url n"
    and tf: "\<And>c w. (fst (process_with_bedrock_rate_limited e c url w) = None
                     \<or> fst (process_with_bedrock_rate_limited e c url w) = Some [])
                  \<and> invoke_calls w + lo \<le> invoke_calls (snd (process_with_bedrock_rate_limited e c url w))
                  \<and> invoke_calls (snd (process_with_bedrock_rate_limited e c url w)) \<le> invoke_calls w + hi"
  shows "\<exists>w'. process_single_url e url w =
           (None, record_failure e url BEDROCK_ERROR
                    ''Failed to process content with Bedrock after all retries'' w')
         \<and> jina_calls w' = jina_calls w + 3 \<and> bedrock_calls w' = bedrock_calls w + 3
         \<and> invoke_calls w + 3 * lo \<le> invoke_calls w' \<and> invoke_calls w' \<le> invoke_calls w + 3 * hi
         \<and> successful_urls (stats w') = successful_urls (stats w)
         \<and> failed_urls (stats w') = failed_urls (stats w)"
proof -
  from nf have nf': "\<And>w. \<not> fetch_fails e url (jina_calls w)" by simp
  from failing_transform_attempt [OF nf' tf, of w 0 "[1, 2]"] obtain wa where
    a: "jina_calls wa = jina_calls w + 1" "bedrock_calls wa = bedrock_calls w + 1"
       "invoke_calls w + lo \<le> invoke_calls wa" "invoke_calls wa \<le> invoke_calls w + hi"
       "successful_urls (stats wa) = successful_urls (stats w)"
       "failed_urls (stats wa) = failed_urls (stats w)"
       "url_attempts e url [0, 1, 2] w = url_attempts e url [1, 2] (sleep 2 wa)"
    by (auto simp: max_retries_def)
  from failing_transform_attempt [OF nf' tf, of "sleep 2 wa" 1 "[2]"] obtain wb where
    b: "jina_calls wb = jina_calls (sleep 2 wa) + 1" "bedrock_calls wb = bedrock_calls (sleep 2 wa) + 1"
       "invoke_calls (sleep 2 wa) + lo \<le> invoke_calls wb"
       "invoke_calls wb \<le> invoke_calls (sleep 2 wa) + hi"
       "successful_urls (stats wb) = successful_urls (stats (sleep 2 wa))"
       "failed_urls (stats wb) = failed_urls (stats (sleep 2 wa))"
       "url_attempts e url [1, 2] (sleep 2 wa) = url_attempts e url [2] (sleep 2 wb)"
    by (auto simp: max_retries_def)
  from failing_transform_attempt [OF nf' tf, of "sleep 2 wb" 2 "[]"] obtain wc where
    c: "jina_calls wc = jina_calls (sleep 2 wb) + 1" "bedrock_calls wc = bedrock_calls (sleep 2 wb) + 1"
       "invoke_calls (sleep 2 wb) + lo \<le> invoke_calls wc"
       "invoke_calls wc \<le> invoke_calls (sleep 2 wb) + hi"
       "successful_urls (stats wc) = successful_urls (stats (sleep 2 wb))"
       "failed_urls (stats wc) = failed_urls (stats (sleep 2 wb))"
       "url_attempts e url [2] (sleep 2 wb) =
          (None, record_failure e url BEDROCK_ERROR
                   ''Failed to process content with Bedrock after all retries'' wc)"
    by (auto simp: max_retries_def)
  have "process_single_url e url w =
      (None, record_failure e url BEDROCK_ERROR
               ''Failed to process content with Bedrock after all retries'' wc)"
    unfolding process_single_url_def attempts_upt a(7) b(7) c(7) by (rule refl)
  moreover have "jina_calls wc = jina_calls w + 3 \<and> bedrock_calls wc = bedrock_calls w + 3
      \<and> invoke_calls w + 3 * lo \<le> invoke_calls wc \<and> invoke_calls wc \<le> invoke_calls w + 3 * hi
      \<and> successful_urls (stats wc) = successful_urls (stats w)
      \<and> failed_urls (stats wc) = failed_urls (stats w)"
    using a(1-6) b(1-6) c(1-6) by (simp add: sleep_simps)
  ultimately show ?thesis by blast
qed

lemma process_succeeds:
  assumes nf: "\<not> fetch_fails e url (jina_calls w)"
    and bc: "bedrock_client e"
    and ok: "\<forall>n c. \<exists>p. invoke_model e n c url = InvokeOk p \<and> p \<noteq> []"
  shows "\<exists>r w'. process_single_url e url w = (Some r, w')
         \<and> original_url r = url
         \<and> jina_calls w' = jina_calls w + 1 \<and> invoke_calls w' = invoke_calls w + 1
         \<and> successful_urls (stats w') = successful_urls (stats w)
         \<and> failed_urls (stats w') = failed_urls (stats w)"
proof -
  from nf obtain c where c: "extract_content_via_jina e url (jina_http_of e (jina_calls w) url) = Inr c"
    and ne: "c \<noteq> []"
    by (auto simp: fetch_fails_def split: sum.splits)
  define w1 where "w1 = w\<lparr>jina_calls := jina_calls w + 1\<rparr>"
  obtain c' r w2 where sw: "swagger_stage e url c w1 = (c', r, w2)"
    by (cases "swagger_stage e url c w1") auto
  obtain p w3 where pb: "process_with_bedrock_rate_limited e c' url w2 = (p, w3)"
    by (cases "process_with_bedrock_rate_limited e c' url w2") auto
  from ok obtain t where t: "invoke_model e (invoke_calls w2) c' url = InvokeOk t" "t \<noteq> []"
    by blast
  from process_with_bedrock_first_answer [OF bc t(1)] pb
  have p: "p = Some t" and i: "invoke_calls w3 = invoke_calls w2 + 1" by simp_all
  from swagger_stage_effect [OF sw] process_with_bedrock_effect [OF pb] i
  have counts: "jina_calls w3 = jina_calls w + 1" "invoke_calls w3 = invoke_calls w + 1"
    "successful_urls (stats w3) = successful_urls (stats w)"
    "failed_urls (stats w3) = failed_urls (stats w)"
    by (simp_all add: w1_def)
  have "url_attempts e url [0, 1, 2] w =
      (Some \<lparr>original_url = url, raw_markdown = c', processed_content = t,
             result_timestamp = now_iso e, result_swagger_info = swagger_info_of r\<rparr>, w3)"
    using c ne sw pb p t(2)
    by (simp add: extract_content_via_jina_rate_limited_def w1_def)
  then have "process_single_url e url w =
      (Some \<lparr>original_url = url, raw_markdown = c', processed_content = t,
             result_timestamp = now_iso e, result_swagger_info = swagger_info_of r\<rparr>, w3)"
    unfolding process_single_url_def attempts_upt .
  with counts show ?thesis by simp
qed

text \<open>What processing a URL does to the statistics: it never touches the list of
  successes, adds to the failure map at most an entry for its own URL, and leaves the
  failure map as it is when it gives a result.\<close>

lemma url_attempts_invariant:
  "url_attempts e url as w = (res, w') \<Longrightarrow>
     successful_urls (stats w') = successful_urls (stats w)
     \<and> (res \<noteq> None \<longrightarrow> failed_urls (stats w') = failed_urls (stats w))
     \<and> set (dict_keys (failed_urls (stats w'))) \<subseteq> insert url (set (dict_keys (failed_urls (stats w))))"
proof (induction as arbitrary: w)
  case Nil
  then show ?case by auto
next
  case (Cons a as)
  define w1 where "w1 = w\<lparr>jina_calls := jina_calls w + 1\<rparr>"
  have st1: "stats w1 = stats w" by (simp add: w1_def)
  show ?case
  proof (cases "fetch_fails e url (jina_calls w)")
    case True
    show ?thesis
    proof (cases "a < max_retries")
      case retry: True
      from failing_fetch_retry [OF True retry, of as] Cons.prems
      have "url_attempts e url as (sleep 2 w1) = (res, w')" by (simp add: w1_def)
      from Cons.IH [OF this] show ?thesis by (simp add: sleep_simps st1)
    next
      case False
      from failing_fetch_last [OF True False, of as] Cons.prems
      show ?thesis by (auto simp: record_failure_simps dict_set_keys)
    qed
  next
    case False
    then obtain c where c: "extract_content_via_jina e url (jina_http_of e (jina_calls w) url) = Inr c"
      and ne: "c \<noteq> []"
      by (auto simp: fetch_fails_def split: sum.splits)
    obtain c' r w2 where sw: "swagger_stage e url c w1 = (c', r, w2)"
      by (cases "swagger_stage e url c w1") auto
    obtain p w3 where pb: "process_with_bedrock_rate_limited e c' url w2 = (p, w3)"
      by (cases "process_with_bedrock_rate_limited e c' url w2") auto
    from swagger_stage_effect [OF sw] process_with_bedrock_effect [OF pb]
    have succ: "successful_urls (stats w3) = successful_urls (stats w)"
      and fail: "failed_urls (stats w3) = failed_urls (stats w)"
      by (simp_all add: st1)
    have step: "url_attempts e url (a # as) w =
      (if p = None \<or> p = Some [] then
         (if a < max_retries then url_attempts e url as (sleep 2 w3)
          else (None, record_failure e url BEDROCK_ERROR
                        ''Failed to process content with Bedrock after all retries'' w3))
       else (Some \<lparr>original_url = url, raw_markdown = c',
                   processed_content = (case p of Some p \<Rightarrow> p | None \<Rightarrow> []),
                   result_timestamp = now_iso e,
                   result_swagger_info = swagger_info_of r\<rparr>, w3))"
      using c ne sw pb by (simp add: extract_content_via_jina_rate_limited_def w1_def)
    show ?thesis
    proof (cases "p = None \<or> p = Some []")
      case falsy: True
      show ?thesis
      proof (cases "a < max_retries")
        case True
        with falsy step Cons.prems have "url_attempts e url as (sleep 2 w3) = (res, w')" by simp
        from Cons.IH [OF this] succ fail show ?thesis
          by (simp add: sleep_simps)
      next
        case False
        with falsy step Cons.prems show ?thesis
          by (auto simp: record_failure_simps succ fail dict_set_keys)
      qed
    next
      case False
      with step Cons.prems succ fail show ?thesis by auto
    qed
  qed
qed

lemma timeouts_fetch_fails: "fetch_fails env_timeouts url n"
  by (simp add: fetch_fails_def env_timeouts_def env_ok_def extract_content_via_jina_def)

lemma fetch_ok_simps:
  "\<not> fetch_fails env_ok url n"
  "\<not> fetch_fails env_bedrock_down url n"
  "\<not> fetch_fails env_empty_answers url n"
  "\<not> fetch_fails env_no_client url n"
  "\<not> fetch_fails env_one_down url n"
  by (simp_all add: fetch_fails_def env_bedrock_down_def env_empty_answers_def env_no_client_def
      env_one_down_def env_ok_def extract_content_via_jina_def plain_html_def)

lemma bedrock_down_client: "bedrock_client env_bedrock_down"
  by (simp add: env_bedrock_down_def env_ok_def)

lemma bedrock_down_invoke: "\<forall>n c. \<exists>msg. invoke_model env_bedrock_down n c u = InvokeRaises msg"
  by (simp add: env_bedrock_down_def env_ok_def)

text \<open>
  Claim C3, as stated, fails for the transformation stage: with a Bedrock client that
  raises on every call, the client is called nine times, not three, because each of
  the three attempts of \<open>process_single_url\<close> runs the three attempts of
  \<open>process_with_bedrock\<close>; the content is fetched three times as well.
\<close>

theorem transform_retries_counterexample:
  "fst (process_single_url env_bedrock_down guide_url (new_world ''https://example.com'' 0)) = None
   \<and> invoke_calls (snd (process_single_url env_bedrock_down guide_url
                           (new_world ''https://example.com'' 0))) = 9
   \<and> jina_calls (snd (process_single_url env_bedrock_down guide_url
                           (new_world ''https://example.com'' 0))) = 3"
proof -
  have nf: "\<forall>n. \<not> fetch_fails env_bedrock_down guide_url n" by (simp add: fetch_ok_simps)
  from transform_always_fails [of env_bedrock_down guide_url 3 3 "new_world ''https://example.com'' 0",
      OF nf]
    process_with_bedrock_all_raise [OF bedrock_down_client bedrock_down_invoke]
  obtain w' where "process_single_url env_bedrock_down guide_url (new_world ''https://example.com'' 0) =
           (None, record_failure env_bedrock_down guide_url BEDROCK_ERROR
                    ''Failed to process content with Bedrock after all retries'' w')"
    and "jina_calls w' = jina_calls (new_world ''https://example.com'' 0) + 3"
    and "invoke_calls (new_world ''https://example.com'' 0) + 3 * 3 \<le> invoke_calls w'"
    and "invoke_calls w' \<le> invoke_calls (new_world ''https://example.com'' 0) + 3 * 3"
    by auto
  then show ?thesis by (simp add: record_failure_simps new_world_def)
qed

text \<open>
  Claim C3, amended. If the content fetch fails on every attempt (it raises or gives an
  empty content), exactly \<open>max_retries + 1 = 3\<close> requests to the content-extraction
  service are made and no more, \<open>process_with_bedrock\<close> is not called, and
  \<open>process_single_url\<close> gives no result and leaves the URL in the failure map. If the
  content fetch succeeds and the transformation fails on every attempt
  (\<open>process_with_bedrock\<close> gives nothing or an empty text), the content is fetched
  exactly 3 times and \<open>process_with_bedrock\<close> is called exactly 3 times, after which
  \<open>process_single_url\<close> gives no result and leaves the URL in the failure map. Each
  call of \<open>process_with_bedrock\<close> runs a retry loop of its own, which stops at the
  first pass that does not raise: without a client there is no call of the client at
  all; with a client there are between 3 and 9 calls, 9 when every call raises and 3
  when every call gives an empty text.
\<close>

theorem retry_attempts_per_stage:
  "((\<forall>n. fetch_fails e url n) \<longrightarrow>
      (\<exists>w'. process_single_url e url w = (None, w')
          \<and> jina_calls w' = jina_calls w + 3
          \<and> bedrock_calls w' = bedrock_calls w
          \<and> invoke_calls w' = invoke_calls w
          \<and> url \<in> set (dict_keys (failed_urls (stats w')))))
   \<and> ((\<forall>n. \<not> fetch_fails e url n) \<and> transform_fails e url \<longrightarrow>
      (\<exists>w'. process_single_url e url w = (None, w')
          \<and> jina_calls w' = jina_calls w + 3
          \<and> bedrock_calls w' = bedrock_calls w + 3
          \<and> (\<not> bedrock_client e \<longrightarrow> invoke_calls w' = invoke_calls w)
          \<and> (bedrock_client e \<longrightarrow>
                invoke_calls w + 3 \<le> invoke_calls w' \<and> invoke_calls w' \<le> invoke_calls w + 9)
          \<and> (bedrock_client e \<and> (\<forall>n c. \<exists>msg. invoke_model e n c url = InvokeRaises msg) \<longrightarrow>
                invoke_calls w' = invoke_calls w + 9)
          \<and> (bedrock_client e \<and> (\<forall>n c. invoke_model e n c url = InvokeOk []) \<longrightarrow>
                invoke_calls w' = invoke_calls w + 3)
          \<and> url \<in> set (dict_keys (failed_urls (stats w')))))"
proof (intro conjI impI)
  assume "\<forall>n. fetch_fails e url n"
  from fetch_always_fails [OF this, of w] obtain w1 where
    "process_single_url e url w =
           (None, record_failure e url (fst (fetch_failure e url (jina_calls w + 2)))
                    (snd (fetch_failure e url (jina_calls w + 2))) w1)"
    "jina_calls w1 = jina_calls w + 3" "invoke_calls w1 = invoke_calls w"
    "bedrock_calls w1 = bedrock_calls w"
    by blast
  then show "\<exists>w'. process_single_url e url w = (None, w')
          \<and> jina_calls w' = jina_calls w + 3
          \<and> bedrock_calls w' = bedrock_calls w
          \<and> invoke_calls w' = invoke_calls w
          \<and> url \<in> set (dict_keys (failed_urls (stats w')))"
    by (simp add: record_failure_simps dict_set_keys)
next
  assume "(\<forall>n. \<not> fetch_fails e url n) \<and> transform_fails e url"
  then have nf: "\<forall>n. \<not> fetch_fails e url n" and tf: "transform_fails e url" by blast+
  let ?msg = "''Failed to process content with Bedrock after all retries''"
  let ?goal = "\<lambda>w'. process_single_url e url w = (None, w')
          \<and> jina_calls w' = jina_calls w + 3
          \<and> bedrock_calls w' = bedrock_calls w + 3
          \<and> (\<not> bedrock_client e \<longrightarrow> invoke_calls w' = invoke_calls w)
          \<and> (bedrock_client e \<longrightarrow>
                invoke_calls w + 3 \<le> invoke_calls w' \<and> invoke_calls w' \<le> invoke_calls w + 9)
          \<and> (bedrock_client e \<and> (\<forall>n c. \<exists>msg. invoke_model e n c url = InvokeRaises msg) \<longrightarrow>
                invoke_calls w' = invoke_calls w + 9)
          \<and> (bedrock_client e \<and> (\<forall>n c. invoke_model e n c url = InvokeOk []) \<longrightarrow>
                invoke_calls w' = invoke_calls w + 3)
          \<and> url \<in> set (dict_keys (failed_urls (stats w')))"
  have key: "url \<in> set (dict_keys (failed_urls (stats (record_failure e url BEDROCK_ERROR ?msg w1))))"
    for w1 by (simp add: record_failure_simps dict_set_keys)
  show "\<exists>w'. ?goal w'"
  proof (cases "bedrock_client e")
    case False
    from transform_always_fails [of e url 0 0 w, OF nf] process_with_bedrock_no_client [OF False]
    obtain w1 where r: "process_single_url e url w = (None, record_failure e url BEDROCK_ERROR ?msg w1)"
      and "jina_calls w1 = jina_calls w + 3" "bedrock_calls w1 = bedrock_calls w + 3"
      and "invoke_calls w1 \<le> invoke_calls w + 3 * 0" "invoke_calls w + 3 * 0 \<le> invoke_calls w1"
      by auto
    with False key [of w1] have "?goal (record_failure e url BEDROCK_ERROR ?msg w1)"
      by (simp add: record_failure_simps)
    then show ?thesis ..
  next
    case True
    with tf have all: "\<forall>n c. invoke_fails (invoke_model e n c url)"
      by (simp add: transform_fails_def)
    from transform_always_fails [of e url 1 3 w, OF nf] process_with_bedrock_fails [OF True all]
    obtain w1 where r: "process_single_url e url w = (None, record_failure e url BEDROCK_ERROR ?msg w1)"
      and c: "jina_calls w1 = jina_calls w + 3" "bedrock_calls w1 = bedrock_calls w + 3"
      and b: "invoke_calls w + 3 * 1 \<le> invoke_calls w1" "invoke_calls w1 \<le> invoke_calls w + 3 * 3"
      by auto
    have nine: "invoke_calls w1 = invoke_calls w + 9"
      if "\<forall>n c. \<exists>msg. invoke_model e n c url = InvokeRaises msg"
    proof -
      from transform_always_fails [of e url 3 3 w, OF nf]
        process_with_bedrock_all_raise [OF True that]
      obtain w2 where r2: "process_single_url e url w = (None, record_failure e url BEDROCK_ERROR ?msg w2)"
        and b2: "invoke_calls w + 3 * 3 \<le> invoke_calls w2" "invoke_calls w2 \<le> invoke_calls w + 3 * 3"
        by auto
      from r r2 have "record_failure e url BEDROCK_ERROR ?msg w2 = record_failure e url BEDROCK_ERROR ?msg w1"
        by simp
      from record_failure_same_calls [OF this] b2 show ?thesis by simp
    qed
    have three: "invoke_calls w1 = invoke_calls w + 3"
      if "\<forall>n c. invoke_model e n c url = InvokeOk []"
    proof -
      from that True have "\<And>c w. fst (process_with_bedrock_rate_limited e c url w) = Some []
          \<and> invoke_calls (snd (process_with_bedrock_rate_limited e c url w)) = invoke_calls w + 1"
        by (intro process_with_bedrock_first_answer) simp_all
      with transform_always_fails [of e url 1 1 w, OF nf]
      obtain w2 where r2: "process_single_url e url w = (None, record_failure e url BEDROCK_ERROR ?msg w2)"
        and b2: "invoke_calls w + 3 * 1 \<le> invoke_calls w2" "invoke_calls w2 \<le> invoke_calls w + 3 * 1"
        by auto
      from r r2 have "record_failure e url BEDROCK_ERROR ?msg w2 = record_failure e url BEDROCK_ERROR ?msg w1"
        by simp
      from record_failure_same_calls [OF this] b2 show ?thesis by simp
    qed
    from r c b nine three True key [of w1]
    have "?goal (record_failure e url BEDROCK_ERROR ?msg w1)"
      by (simp add: record_failure_simps)
    then show ?thesis ..
  qed
qed

theorem retry_attempts_per_stage_witness:
  "(\<forall>n. fetch_fails env_timeouts guide_url n)
   \<and> (\<exists>w'. process_single_url env_timeouts guide_url (new_world ''https://example.com'' 0) = (None, w')
          \<and> jina_calls w' = 3 \<and> bedrock_calls w' = 0 \<and> invoke_calls w' = 0
          \<and> guide_url \<in> set (dict_keys (failed_urls (stats w'))))
   \<and> (\<forall>n. \<not> fetch_fails env_bedrock_down guide_url n) \<and> transform_fails env_bedrock_down guide_url
   \<and> (\<exists>w'. process_single_url env_bedrock_down guide_url (new_world ''https://example.com'' 0) = (None, w')
          \<and> jina_calls w' = 3 \<and> bedrock_calls w' = 3 \<and> invoke_calls w' = 9
          \<and> guide_url \<in> set (dict_keys (failed_urls (stats w'))))
   \<and> (\<forall>n. \<not> fetch_fails env_empty_answers guide_url n) \<and> transform_fails env_empty_answers guide_url
   \<and> (\<exists>w'. process_single_url env_empty_answers guide_url (new_world ''https://example.com'' 0) = (None, w')
          \<and> jina_calls w' = 3 \<and> bedrock_calls w' = 3 \<and> invoke_calls w' = 3
          \<and> guide_url \<in> set (dict_keys (failed_urls (stats w'))))
   \<and> (\<forall>n. \<not> fetch_fails env_no_client guide_url n) \<and> transform_fails env_no_client guide_url
   \<and> (\<exists>w'. process_single_url env_no_client guide_url (new_world ''https://example.com'' 0) = (None, w')
          \<and> jina_calls w' = 3 \<and> bedrock_calls w' = 3 \<and> invoke_calls w' = 0
          \<and> guide_url \<in> set (dict_keys (failed_urls (stats w'))))"
proof -
  have t: "\<forall>n. fetch_fails env_timeouts guide_url n" by (simp add: timeouts_fetch_fails)
  have fb: "\<forall>n. \<not> fetch_fails env_bedrock_down guide_url n"
    and fe: "\<forall>n. \<not> fetch_fails env_empty_answers guide_url n"
    and fn: "\<forall>n. \<not> fetch_fails env_no_client guide_url n"
    by (simp_all add: fetch_ok_simps)
  have tb: "transform_fails env_bedrock_down guide_url"
    and te: "transform_fails env_empty_answers guide_url"
    and tn: "transform_fails env_no_client guide_url"
    by (simp_all add: transform_fails_def invoke_fails_def env_bedrock_down_def env_empty_answers_def
        env_no_client_def env_ok_def)
  have cb: "bedrock_client env_bedrock_down \<and> (\<forall>n c. \<exists>msg. invoke_model env_bedrock_down n c guide_url = InvokeRaises msg)"
    and ce: "bedrock_client env_empty_answers \<and> (\<forall>n c. invoke_model env_empty_answers n c guide_url = InvokeOk [])"
    and cn: "\<not> bedrock_client env_no_client"
    by (simp_all add: env_bedrock_down_def env_empty_answers_def env_no_client_def env_ok_def)
  from retry_attempts_per_stage [of env_timeouts guide_url "new_world ''https://example.com'' 0"] t
  have one: "\<exists>w'. process_single_url env_timeouts guide_url (new_world ''https://example.com'' 0) = (None, w')
          \<and> jina_calls w' = 3 \<and> bedrock_calls w' = 0 \<and> invoke_calls w' = 0
          \<and> guide_url \<in> set (dict_keys (failed_urls (stats w')))"
    by (auto simp: new_world_def)
  from retry_attempts_per_stage [of env_bedrock_down guide_url "new_world ''https://example.com'' 0"] fb tb cb
  have two: "\<exists>w'. process_single_url env_bedrock_down guide_url (new_world ''https://example.com'' 0) = (None, w')
          \<and> jina_calls w' = 3 \<and> bedrock_calls w' = 3 \<and> invoke_calls w' = 9
          \<and> guide_url \<in> set (dict_keys (failed_urls (stats w')))"
    by (auto simp: new_world_def)
  from retry_attempts_per_stage [of env_empty_answers guide_url "new_world ''https://example.com'' 0"] fe te ce
  have three: "\<exists>w'. process_single_url env_empty_answers guide_url (new_world ''https://example.com'' 0) = (None, w')
          \<and> jina_calls w' = 3 \<and> bedrock_calls w' = 3 \<and> invoke_calls w' = 3
          \<and> guide_url \<in> set (dict_keys (failed_urls (stats w')))"
    by (auto simp: new_world_def)
  from retry_attempts_per_stage [of env_no_client guide_url "new_world ''https://example.com'' 0"] fn tn cn
  have four: "\<exists>w'. process_single_url env_no_client guide_url (new_world ''https://example.com'' 0) = (None, w')
          \<and> jina_calls w' = 3 \<and> bedrock_calls w' = 3 \<and> invoke_calls w' = 0
          \<and> guide_url \<in> set (dict_keys (failed_urls (stats w')))"
    by (auto simp: new_world_def)
  from t fb fe fn tb te tn one two three four show ?thesis by blast
qed

section \<open>Properties of the result loop\<close>

lemma one_down_guide:
  "\<exists>r w'. process_single_url env_one_down guide_url w = (Some r, w')
         \<and> successful_urls (stats w') = successful_urls (stats w)
         \<and> failed_urls (stats w') = failed_urls (stats w)"
proof -
  have "bedrock_client env_one_down" by (simp add: env_one_down_def env_ok_def)
  moreover have "\<forall>n c. \<exists>p. invoke_model env_one_down n c guide_url = InvokeOk p \<and> p \<noteq> []"
    by (simp add: env_one_down_def env_ok_def guide_url_def slow_url_def)
  ultimately show ?thesis
    using process_succeeds [of env_one_down guide_url w] fetch_ok_simps(5) by blast
qed

lemma one_down_slow:
  "\<exists>w'. process_single_url env_one_down slow_url w =
           (None, record_failure env_one_down slow_url BEDROCK_ERROR
                    ''Failed to process content with Bedrock after all retries'' w')
         \<and> successful_urls (stats w') = successful_urls (stats w)
         \<and> failed_urls (stats w') = failed_urls (stats w)"
proof -
  have nf: "\<forall>n. \<not> fetch_fails env_one_down slow_url n" by (simp add: fetch_ok_simps)
  have bc: "bedrock_client env_one_down" by (simp add: env_one_down_def env_ok_def)
  have inv: "\<forall>n c. \<exists>msg. invoke_model env_one_down n c slow_url = InvokeRaises msg"
    by (simp add: env_one_down_def env_ok_def)
  from transform_always_fails [of env_one_down slow_url 3 3 w, OF nf]
    process_with_bedrock_all_raise [OF bc inv]
  show ?thesis by auto
qed

text \<open>
  Claim C2 says that the successful URLs and the keys of the failure map of an instance
  are disjoint at every point of a run. The result loop books the \<open>i\<close>-th result that
  arrives under the \<open>i\<close>-th URL of the list, whichever task it comes from. With two
  URLs, the first of which fails in the transformation after all its retries while the
  second succeeds at once and so completes first, the result of the second is booked
  as a success of the first, whose own task then records its failure: the first URL is
  in the success list and in the failure map (reason \<open>bedrock_error\<close>), and the second,
  which succeeded, is only in the failure map (reason \<open>processing_error\<close>).
\<close>

theorem completion_order_overlap:
  "successful_urls (stats (scrape_and_process env_one_down [slow_url, guide_url] [guide_url, slow_url]
       (new_world ''https://example.com'' 0))) = [slow_url]
   \<and> map (\<lambda>entry. (fst entry, reason (snd entry)))
       (failed_urls (stats (scrape_and_process env_one_down [slow_url, guide_url] [guide_url, slow_url]
          (new_world ''https://example.com'' 0))))
     = [(slow_url, ''bedrock_error''), (guide_url, ''processing_error'')]"
proof -
  let ?w0 = "new_world ''https://example.com'' 0"
  let ?msg = "''Failed to process content with Bedrock after all retries''"
  from one_down_guide [of ?w0] obtain r w1 where
    g: "process_single_url env_one_down guide_url ?w0 = (Some r, w1)"
    and g1: "successful_urls (stats w1) = []" "failed_urls (stats w1) = []"
    by (auto simp: new_world_def new_stats_def)
  define w2 where "w2 = record_result env_one_down slow_url (Some r) w1"
  from g1 have s2: "successful_urls (stats w2) = [slow_url]" "failed_urls (stats w2) = []"
    by (simp_all add: w2_def record_result_def add_success_def)
  from one_down_slow [of w2] obtain w3 where
    s: "process_single_url env_one_down slow_url w2 =
          (None, record_failure env_one_down slow_url BEDROCK_ERROR ?msg w3)"
    and s3: "successful_urls (stats w3) = [slow_url]" "failed_urls (stats w3) = []"
    by (auto simp: s2)
  have run: "scrape_and_process env_one_down [slow_url, guide_url] [guide_url, slow_url] ?w0 =
      record_result env_one_down guide_url None
        (record_failure env_one_down slow_url BEDROCK_ERROR ?msg w3)"
    by (simp add: scrape_and_process_def g w2_def [symmetric] s)
  have ne: "guide_url \<noteq> slow_url" by (simp add: guide_url_def slow_url_def)
  show ?thesis
    unfolding run using ne
    by (simp add: record_result_def record_failure_simps s3)
qed
section \<open>Properties of the rate limiter\<close>

text \<open>Pruning keeps the requests of the last 60 seconds. A call that sleeps wakes when the
  oldest recorded request is 60 seconds old, and is then recorded; a call made while no
  other coroutine runs leaves at most 20 recorded requests.\<close>

lemma prune_length: "length (prune t l) \<le> length l"
  by (simp add: prune_def)

lemma prune_recent: "x \<in> set (prune t l) \<Longrightarrow> t - x < 60"
  by (simp add: prune_def)

lemma enter_sleeping:
  assumes "rate_limit_enter t l = Sleeping d p"
  shows "p = prune t l" and "20 \<le> length p" and "d = 60 - (t - hd p)" and "0 < d"
    and "t + d = hd p + 60"
  using assms by (auto simp: rate_limit_enter_def Let_def split: if_splits)

lemma enter_admitted:
  assumes "rate_limit_enter t l = Admitted p" and "length l \<le> 20"
  shows "p = prune t l @ [t] \<and> length p \<le> 20"
proof -
  have "length (prune t l) < 20" if "p = prune t l @ [t]"
  proof (rule ccontr)
    assume "\<not> length (prune t l) < 20"
    then have big: "20 \<le> length (prune t l)" by simp
    then have "prune t l \<noteq> []" by auto
    then have "hd (prune t l) \<in> set (prune t l)" by simp
    from prune_recent [OF this] have "0 < 60 - (t - hd (prune t l))" by simp
    with big assms(1) show False by (simp add: rate_limit_enter_def Let_def)
  qed
  moreover from assms(1) have "p = prune t l @ [t]"
    by (auto simp: rate_limit_enter_def Let_def split: if_splits)
  ultimately show ?thesis by simp
qed

lemma resume_records: "last (rate_limit_resume t l) = t"
  by (simp add: rate_limit_resume_def)

lemma sequential_admit_bounded:
  assumes len: "length limiter \<le> 20"
    and slept: "\<And>d p. rate_limit_enter t limiter = Sleeping d p \<Longrightarrow> t + d \<le> after"
  shows "length (rate_limit_admit t after limiter) \<le> 20"
proof (cases "rate_limit_enter t limiter")
  case (Admitted p)
  from enter_admitted [OF Admitted len] have "length p \<le> 20" by blast
  with Admitted show ?thesis by (simp add: rate_limit_admit_def)
next
  case (Sleeping d p)
  note p = enter_sleeping(1,2) [OF Sleeping] and wake = enter_sleeping(5) [OF Sleeping]
  from p prune_length [of t limiter] len have l20: "length p = 20" by simp
  then obtain x xs where px: "p = x # xs" by (cases p) auto
  from slept [OF Sleeping] wake px have "\<not> after - x < 60" by simp
  then have "length (prune after p) \<le> length xs"
    using px prune_length [of after xs] by (simp add: prune_def)
  with l20 px Sleeping show ?thesis
    by (simp add: rate_limit_admit_def rate_limit_resume_def)
qed

lemma burst_run:
  "run_events burst idle =
     Some \<lparr>clock = 60, shared = replicate 19 30 @ [60, 60], sleepers = [], in_flight = 19,
           admitted = 0 # replicate 19 30 @ [60, 60]\<rparr>"
  by code_simp

lemma window_count: "calls_in_window (0 # replicate 19 30 @ [60, 60]) 60 = 21"
  by code_simp

text \<open>
  Claim C6 says that no arrival pattern gets more than 20 calls admitted in a trailing
  window of 60 seconds. The length of the list is tested once, before the sleep; after
  the sleep the request is recorded whatever the list holds by then. For the arrival
  pattern \<open>burst\<close> the two calls that slept together are both recorded at time 60,
  next to the nineteen requests of time 30: the recorded requests are one at 0,
  nineteen at 30 and two at 60, and 21 of them lie in the 60 seconds that end at 60.
\<close>

theorem rate_limiter_overrun:
  "\<exists>s. run_events burst idle = Some s
       \<and> admitted s = 0 # replicate 19 30 @ [60, 60]
       \<and> calls_in_window (admitted s) 60 = 21"
  unfolding burst_run using window_count by simp

end
